theory Spec2Isabelle
  imports Complex_Main "HOL-Library.Sublist"
begin

section \<open>The hand motion-capture demo driver (demo/demo_handmocap.py)\<close>

text \<open>
  The driver wires a hand detector, a pose regressor, a point-cloud window and a mesh
  renderer around one per-frame loop.  The wrapped components are parameters of the
  model (fields of the record \<open>env\<close>); every call the driver makes on them is logged
  as an \<open>event\<close>, so that the order and the number of the calls can be stated.
  A Python exception is a value of the type \<open>error\<close>; a local name that may be
  read before it is assigned is an \<open>option\<close>, \<open>None\<close> meaning unbound.
\<close>

subsection \<open>Data\<close>

datatype error =
    AssertionError string
  | UnboundLocalError string
  | TypeError
  | AttributeError
  | KeyError string
  | IndexError

text \<open>An image as the driver sees it: its \<open>shape[:2]\<close> and its pixels (opaque).\<close>

record image =
  img_h :: nat
  img_w :: nat
  img_data :: nat

type_synonym bbox = "int list"
type_synonym hand_bbox = "(string \<times> bbox) list"
type_synonym body_bbox = bbox

type_synonym point = "real \<times> real \<times> real"
type_synonym hand_pred = "(string \<times> point list) list"
type_synonym pred_output = "(string \<times> hand_pred option) list"

type_synonym mesh = nat
type_synonym res_img = nat

text \<open>
  The options of \<open>DemoOptions\<close> that \<open>run_hand_mocap\<close> reads.  The two frame bounds
  are integers, the type the options are parsed with; \<open>start_frame\<close> may be negative.
\<close>

record args =
  out_dir :: "string option"
  start_frame :: int
  end_frame :: int
  save_frame :: bool
  crop_type :: string
  save_bbox_output :: bool
  no_display :: bool
  save_pred_pkl :: bool
  no_video_out :: bool
  seq_name :: string

text \<open>One entry of a \<open>bbox_dir\<close> input: a dictionary with three keys.\<close>

record bbox_entry =
  be_image_path :: string
  be_hand_bbox_list :: "hand_bbox list"
  be_body_bbox_list :: "body_bbox list"

text \<open>
  What \<open>demo_utils.setup_input\<close> returns as \<open>input_data\<close>: a list of image paths,
  a list of precomputed entries, a capture object, or \<open>None\<close>.  A capture is the
  sequence of the images its successive \<open>read()\<close> calls return.
\<close>

datatype input_data =
    ImageList "string list"
  | BboxList "bbox_entry list"
  | Capture "nat \<Rightarrow> image option"
  | NoData

datatype event =
    CreateWindow
  | Imread string
  | CapRead "image option"
  | MakeSubdir string
  | Imwrite string image
  | PrintUsePrecomputed
  | PrintSeparator
  | DetectHandBbox image
  | SaveInfoToJson string "body_bbox list" "hand_bbox list"
  | PrintNoHand string
  | Regress image "hand_bbox list"
  | AddGeometry "point list" "point list"
  | UpdateGeometry "point list" "point list"
  | PollEvents
  | UpdateRenderer
  | ExtractMesh "pred_output list"
  | Visualize image "mesh list" "hand_bbox list"
  | ImShow res_img
  | SaveResImg string string res_img
  | SavePredToPkl string "body_bbox list" "hand_bbox list" "pred_output list"
  | PrintProcessed string
  | GenVideoOut string string
  | Release
  | DestroyAllWindows

text \<open>
  The arguments of \<open>run_hand_mocap\<close>, the result of \<open>setup_input\<close> and the library
  calls that return a value.  \<open>detect_hand_bbox\<close> returns four lists; the pose list and
  the raw boxes are assigned and never read, so the model keeps the other two.
\<close>

record env =
  e_args :: args
  input_type :: string
  e_input_data :: input_data
  imread :: "string \<Rightarrow> image option"
  detect_hand_bbox :: "image \<Rightarrow> body_bbox list \<times> hand_bbox list"
  regress :: "image \<Rightarrow> hand_bbox list \<Rightarrow> pred_output list"
  extract_mesh_from_output :: "pred_output list \<Rightarrow> mesh list"
  visualize :: "image \<Rightarrow> mesh list \<Rightarrow> hand_bbox list \<Rightarrow> res_img"
  astype_uint8 :: "res_img \<Rightarrow> res_img"

text \<open>
  The local variables of \<open>run_hand_mocap\<close> that live across iterations, the read
  position of the capture, and the flag of \<open>NonBlockVisualizer\<close>.
\<close>

record state =
  cur_frame :: int
  video_frame :: int
  cap_pos :: nat
  image_path :: "string option"
  hand_bbox_list :: "hand_bbox list option"
  body_bbox_list :: "body_bbox list option"
  vis_initialized :: bool

subsection \<open>Library functions the driver calls\<close>

text \<open>\<open>xs[i]\<close> in Python: \<open>xs[-1]\<close> is the last element; \<open>None\<close> stands for IndexError.\<close>

definition py_index :: "'a list \<Rightarrow> int \<Rightarrow> 'a option" where
  "py_index xs i =
     (if 0 \<le> i \<and> i < int (length xs) then Some (xs ! nat i)
      else if i < 0 \<and> - int (length xs) \<le> i then Some (xs ! nat (int (length xs) + i))
      else None)"

text \<open>The format \<open>{cur_frame:05d}\<close>: decimal, zero padded to five characters, sign included.\<close>

definition digit_char :: "nat \<Rightarrow> char" where
  "digit_char d = char_of (48 + d)"

fun digits :: "nat \<Rightarrow> nat \<Rightarrow> string" where
  "digits 0 n = []"
| "digits (Suc k) n =
     (if n < 10 then [digit_char n] else digits k (n div 10) @ [digit_char (n mod 10)])"

definition decimal :: "nat \<Rightarrow> string" where
  "decimal n = digits (Suc n) n"

definition zero_pad :: "nat \<Rightarrow> string \<Rightarrow> string" where
  "zero_pad w ds = replicate (w - length ds) (CHR ''0'') @ ds"

definition fmt05d :: "int \<Rightarrow> string" where
  "fmt05d i =
     (if i < 0 then CHR ''-'' # zero_pad 4 (decimal (nat (- i)))
      else zero_pad 5 (decimal (nat i)))"

text \<open>\<open>os.path.join\<close> on a POSIX system.\<close>

fun osp_join :: "string \<Rightarrow> string list \<Rightarrow> string" where
  "osp_join path [] = path"
| "osp_join path (b # bs) =
     (if b \<noteq> [] \<and> hd b = CHR ''/'' then osp_join b bs
      else if path = [] \<or> last path = CHR ''/'' then osp_join (path @ b) bs
      else osp_join (path @ ''/'' @ b) bs)"

text \<open>
  \<open>PointCloud.transform\<close>: every point, in homogeneous coordinates, is multiplied by
  the 4x4 matrix and divided by its last coordinate.  Coordinates are real numbers here.
\<close>

definition mat_row :: "real list list \<Rightarrow> nat \<Rightarrow> real list \<Rightarrow> real" where
  "mat_row T i v = sum_list (map2 (*) (T ! i) v)"

definition transform_point :: "real list list \<Rightarrow> point \<Rightarrow> point" where
  "transform_point T p =
     (case p of (x, y, z) \<Rightarrow>
        (let v = [x, y, z, 1]; w = mat_row T 3 v
         in (mat_row T 0 v / w, mat_row T 1 v / w, mat_row T 2 v / w)))"

subsection \<open>NonBlockVisualizer\<close>

text \<open>
  \<open>update_renderer\<close> with the default \<open>wait_time = 0\<close>: the first call adds the
  geometry, later calls update it.  It returns the new value of the flag.
\<close>

definition update_renderer :: "bool \<Rightarrow> point list \<Rightarrow> point list \<Rightarrow> bool \<times> event list" where
  "update_renderer initialized pts cols =
     (True,
      [if \<not> initialized then AddGeometry pts cols else UpdateGeometry pts cols,
       PollEvents, UpdateRenderer])"

subsection \<open>run\_hand\_mocap: before the loop\<close>

definition colors :: "point list" where
  "colors =
     [(0, 255, 255)] @ replicate 4 (0, 0, 0) @ replicate 4 (255, 0, 0)
       @ replicate 4 (0, 255, 0) @ replicate 4 (0, 0, 255) @ replicate 4 (255, 255, 0)"

definition flip_y :: "real list list" where
  "flip_y = [[1, 0, 0, 0], [0, -1, 0, 0], [0, 0, 1, 0], [0, 0, 0, 1]]"

definition init_state :: "env \<Rightarrow> state" where
  "init_state env =
     \<lparr>cur_frame = start_frame (e_args env), video_frame = 0, cap_pos = 0,
      image_path = None, hand_bbox_list = None, body_bbox_list = None,
      vis_initialized = False\<rparr>"

subsection \<open>The loop body, lines 85 to 134: loading the frame\<close>

text \<open>
  The result of the first part of an iteration: an exception, the \<open>continue\<close> of the
  video and webcam branches, or the image (possibly \<open>None\<close>) with \<open>load_bbox\<close>.
\<close>

datatype load_result =
    LCrash error
  | LSkip state
  | LNext state "image option" bool

definition frame_path :: "string \<Rightarrow> string \<Rightarrow> int \<Rightarrow> string" where
  "frame_path od pfx cf = osp_join od [''frames'', pfx @ fmt05d cf @ ''.jpg'']"

definition load_capture :: "env \<Rightarrow> state \<Rightarrow> string \<Rightarrow> load_result \<times> event list" where
  "load_capture env s pfx =
     (case e_input_data env of
        Capture f \<Rightarrow>
          (let img = f (cap_pos s); s1 = s\<lparr>cap_pos := Suc (cap_pos s)\<rparr> in
           if video_frame s < cur_frame s
           then (LSkip (s1\<lparr>video_frame := video_frame s + 1\<rparr>), [CapRead img])
           else
             (case out_dir (e_args env) of
                None \<Rightarrow> (LCrash TypeError, [CapRead img])
              | Some od \<Rightarrow>
                  (let p = frame_path od pfx (cur_frame s);
                       s2 = s1\<lparr>image_path := Some p\<rparr> in
                   case img of
                     None \<Rightarrow> (LNext s2 None False, [CapRead img])
                   | Some im \<Rightarrow>
                       (LNext (s2\<lparr>video_frame := video_frame s + 1\<rparr>) img False,
                        [CapRead img] @
                        (if save_frame (e_args env) then [MakeSubdir p, Imwrite p im]
                         else [])))))
      | _ \<Rightarrow> (LCrash AttributeError, []))"

definition load_data :: "env \<Rightarrow> state \<Rightarrow> load_result \<times> event list" where
  "load_data env s =
     (if input_type env = ''image_dir'' then
        (case e_input_data env of
           ImageList ps \<Rightarrow>
             (if cur_frame s < int (length ps) then
                (case py_index ps (cur_frame s) of
                   None \<Rightarrow> (LCrash IndexError, [])
                 | Some p \<Rightarrow>
                     (LNext (s\<lparr>image_path := Some p\<rparr>) (imread env p) False, [Imread p]))
              else (LNext s None False, []))
         | _ \<Rightarrow> (LCrash TypeError, []))
      else if input_type env = ''bbox_dir'' then
        (case e_input_data env of
           BboxList es \<Rightarrow>
             (if cur_frame s < int (length es) then
                (case py_index es (cur_frame s) of
                   None \<Rightarrow> (LCrash IndexError, [PrintUsePrecomputed])
                 | Some e \<Rightarrow>
                     (LNext (s\<lparr>image_path := Some (be_image_path e),
                               hand_bbox_list := Some (be_hand_bbox_list e),
                               body_bbox_list := Some (be_body_bbox_list e)\<rparr>)
                        (imread env (be_image_path e)) True,
                      [PrintUsePrecomputed, Imread (be_image_path e)]))
              else (LNext s None False, []))
         | _ \<Rightarrow> (LCrash TypeError, []))
      else if input_type env = ''video'' then load_capture env s ''''
      else if input_type env = ''webcam'' then load_capture env s ''scene_''
      else (LCrash (AssertionError ''Unknown input_type''), []))"

subsection \<open>The loop body, lines 140 to 210: one loaded frame\<close>

datatype outcome =
    Continue state
  | Break state
  | Crash error

text \<open>Lines 141 to 155: the boxes are kept as loaded, synthesized, or detected.\<close>

definition bbox_detection :: "env \<Rightarrow> state \<Rightarrow> image \<Rightarrow> bool \<Rightarrow> (error + state) \<times> event list" where
  "bbox_detection env s img load_bbox =
     (if load_bbox then (Inr s, [])
      else if crop_type (e_args env) = ''hand_crop'' then
        (Inr (s\<lparr>hand_bbox_list :=
                  Some [[(''right_hand'', [0, 0, int (img_w img), int (img_h img)])]]\<rparr>), [])
      else if crop_type (e_args env) \<noteq> ''no_crop'' then (Inl (AssertionError []), [])
      else
        (case detect_hand_bbox env img of
           (bb, hb) \<Rightarrow>
             (Inr (s\<lparr>body_bbox_list := Some bb, hand_bbox_list := Some hb\<rparr>),
              [DetectHandBbox img])))"

text \<open>
  Lines 158 and 159.  Python evaluates the arguments of the call from left to right, so
  the first unbound name among them is the one reported.
\<close>

definition save_bbox_json :: "env \<Rightarrow> state \<Rightarrow> (error + unit) \<times> event list" where
  "save_bbox_json env s =
     (if \<not> save_bbox_output (e_args env) then (Inr (), [])
      else
        (case image_path s of
           None \<Rightarrow> (Inl (UnboundLocalError ''image_path''), [])
         | Some p \<Rightarrow>
             (case body_bbox_list s of
                None \<Rightarrow> (Inl (UnboundLocalError ''body_bbox_list''), [])
              | Some bb \<Rightarrow>
                  (case hand_bbox_list s of
                     None \<Rightarrow> (Inl (UnboundLocalError ''hand_bbox_list''), [])
                   | Some hb \<Rightarrow> (Inr (), [SaveInfoToJson p bb hb])))))"

text \<open>Line 175: \<open>pred_output_list[0]['left_hand']['pred_joints_smpl']\<close>.\<close>

definition first_left_joints :: "pred_output list \<Rightarrow> error + point list" where
  "first_left_joints preds =
     (case preds of
        [] \<Rightarrow> Inl IndexError
      | p # _ \<Rightarrow>
          (case map_of p ''left_hand'' of
             None \<Rightarrow> Inl (KeyError ''left_hand'')
           | Some None \<Rightarrow> Inl TypeError
           | Some (Some h) \<Rightarrow>
               (case map_of h ''pred_joints_smpl'' of
                  None \<Rightarrow> Inl (KeyError ''pred_joints_smpl'')
                | Some joints \<Rightarrow> Inr joints)))"

text \<open>Lines 175 to 177: the points handed to the point-cloud window.\<close>

definition point_cloud :: "pred_output list \<Rightarrow> error + point list" where
  "point_cloud preds =
     (case first_left_joints preds of
        Inl e \<Rightarrow> Inl e
      | Inr joints \<Rightarrow> Inr (map (transform_point flip_y) joints))"

text \<open>Lines 186 to 210, once the point cloud is shown.\<close>

definition render_and_save ::
  "env \<Rightarrow> state \<Rightarrow> image \<Rightarrow> hand_bbox list \<Rightarrow> body_bbox list \<Rightarrow> pred_output list
     \<Rightarrow> outcome \<times> event list" where
  "render_and_save env s img hb bb preds =
     (let meshes = extract_mesh_from_output env preds;
          res0 = visualize env img meshes hb;
          res = (if \<not> no_display (e_args env) then astype_uint8 env res0 else res0);
          ev_show = (if \<not> no_display (e_args env) then [ImShow res] else [])
      in
        (case image_path s of
           None \<Rightarrow>
             (Crash (UnboundLocalError ''image_path''),
              [ExtractMesh preds, Visualize img meshes hb] @ ev_show)
         | Some p \<Rightarrow>
             (Continue s,
              [ExtractMesh preds, Visualize img meshes hb] @ ev_show @
              (case out_dir (e_args env) of None \<Rightarrow> [] | Some od \<Rightarrow> [SaveResImg od p res]) @
              (if save_pred_pkl (e_args env) then [SavePredToPkl p bb hb preds] else []) @
              [PrintProcessed p])))"

text \<open>Lines 166 to 210: regression, the two assertions, the point cloud, the rest.\<close>

definition regress_frame :: "env \<Rightarrow> state \<Rightarrow> image \<Rightarrow> hand_bbox list \<Rightarrow> outcome \<times> event list" where
  "regress_frame env s img hb =
     (let preds = regress env img hb in
      case body_bbox_list s of
        None \<Rightarrow> (Crash (UnboundLocalError ''body_bbox_list''), [Regress img hb])
      | Some bb \<Rightarrow>
          if length hb \<noteq> length bb then (Crash (AssertionError []), [Regress img hb])
          else if length bb \<noteq> length preds then (Crash (AssertionError []), [Regress img hb])
          else
            (case point_cloud preds of
               Inl e \<Rightarrow> (Crash e, [Regress img hb])
             | Inr pts \<Rightarrow>
                 (case update_renderer (vis_initialized s) pts colors of
                    (ini, ev_vis) \<Rightarrow>
                      (case render_and_save env (s\<lparr>vis_initialized := ini\<rparr>) img hb bb preds of
                         (oc, ev) \<Rightarrow> (oc, [Regress img hb] @ ev_vis @ ev)))))"

text \<open>Lines 140 to 210.\<close>

definition process_frame :: "env \<Rightarrow> state \<Rightarrow> image \<Rightarrow> bool \<Rightarrow> outcome \<times> event list" where
  "process_frame env s img load_bbox =
     (case bbox_detection env s img load_bbox of
        (Inl e, ev1) \<Rightarrow> (Crash e, ev1)
      | (Inr s1, ev1) \<Rightarrow>
          (case save_bbox_json env s1 of
             (Inl e, ev2) \<Rightarrow> (Crash e, ev1 @ ev2)
           | (Inr _, ev2) \<Rightarrow>
               (case hand_bbox_list s1 of
                  None \<Rightarrow> (Crash (UnboundLocalError ''hand_bbox_list''), ev1 @ ev2)
                | Some hb \<Rightarrow>
                    if length hb < 1 then
                      (case image_path s1 of
                         None \<Rightarrow> (Crash (UnboundLocalError ''image_path''), ev1 @ ev2)
                       | Some p \<Rightarrow> (Continue s1, ev1 @ ev2 @ [PrintNoHand p]))
                    else
                      (case regress_frame env s1 img hb of
                         (oc, ev3) \<Rightarrow> (oc, ev1 @ ev2 @ ev3)))))"

subsection \<open>The loop\<close>

text \<open>One iteration of \<open>while True\<close>, lines 85 to 210, with the calls it makes.\<close>

definition loop_body :: "env \<Rightarrow> state \<Rightarrow> outcome \<times> event list" where
  "loop_body env s =
     (case load_data env s of
        (LCrash e, ev1) \<Rightarrow> (Crash e, ev1)
      | (LSkip s1, ev1) \<Rightarrow> (Continue s1, ev1)
      | (LNext s1 img_opt load_bbox, ev1) \<Rightarrow>
          (let s2 = s1\<lparr>cur_frame := cur_frame s1 + 1\<rparr> in
           case img_opt of
             None \<Rightarrow> (Break s2, ev1)
           | Some img \<Rightarrow>
               if cur_frame s2 > end_frame (e_args env) then (Break s2, ev1)
               else
                 (case process_frame env s2 img load_bbox of
                    (oc, ev2) \<Rightarrow> (oc, ev1 @ [PrintSeparator] @ ev2))))"

text \<open>
  Progress of one iteration: a \<open>continue\<close> either advances \<open>cur_frame\<close> within the
  frame range or moves \<open>video_frame\<close> one step towards \<open>cur_frame\<close>.
\<close>

lemma load_capture_cases:
  assumes "load_capture env s pfx = (r, ev)"
  shows "(\<exists>e. r = LCrash e)
       \<or> (\<exists>s1. r = LSkip s1 \<and> cur_frame s1 = cur_frame s
              \<and> video_frame s1 = video_frame s + 1 \<and> video_frame s < cur_frame s)
       \<or> (\<exists>s1 io lb. r = LNext s1 io lb \<and> cur_frame s1 = cur_frame s)"
  using assms
  by (auto simp: load_capture_def Let_def split: input_data.splits option.splits if_splits)

lemma load_data_cases:
  assumes "load_data env s = (r, ev)"
  shows "(\<exists>e. r = LCrash e)
       \<or> (\<exists>s1. r = LSkip s1 \<and> cur_frame s1 = cur_frame s
              \<and> video_frame s1 = video_frame s + 1 \<and> video_frame s < cur_frame s)
       \<or> (\<exists>s1 io lb. r = LNext s1 io lb \<and> cur_frame s1 = cur_frame s)"
proof (cases "input_type env = ''video'' \<or> input_type env = ''webcam''")
  case True
  then have "\<exists>pfx. load_data env s = load_capture env s pfx"
    by (auto simp: load_data_def)
  with assms show ?thesis
    using load_capture_cases by metis
next
  case False
  with assms show ?thesis
    by (auto simp: load_data_def split: input_data.splits option.splits if_splits)
qed

lemma render_and_save_Continue:
  "render_and_save env s img hb bb preds = (Continue s', ev) \<Longrightarrow> s' = s"
  by (auto simp: render_and_save_def Let_def split: option.splits)

lemma regress_frame_Continue:
  "regress_frame env s img hb = (Continue s', ev) \<Longrightarrow> cur_frame s' = cur_frame s"
  by (auto simp: regress_frame_def Let_def update_renderer_def
      split: option.splits if_splits sum.splits prod.splits
      dest!: render_and_save_Continue)

lemma bbox_detection_cur_frame:
  "bbox_detection env s img lb = (Inr s1, ev) \<Longrightarrow> cur_frame s1 = cur_frame s"
  by (auto simp: bbox_detection_def split: if_splits prod.splits)

lemma process_frame_Continue:
  "process_frame env s img lb = (Continue s', ev) \<Longrightarrow> cur_frame s' = cur_frame s"
  by (auto simp: process_frame_def
      split: prod.splits sum.splits option.splits if_splits
      dest!: bbox_detection_cur_frame regress_frame_Continue)

lemma loop_body_Continue:
  assumes "loop_body env s = (Continue s', ev)"
  shows "(cur_frame s' = cur_frame s + 1 \<and> cur_frame s' \<le> end_frame (e_args env))
       \<or> (cur_frame s' = cur_frame s \<and> video_frame s' = video_frame s + 1
            \<and> video_frame s < cur_frame s)"
proof -
  obtain r ev1 where ld: "load_data env s = (r, ev1)"
    by (cases "load_data env s")
  from load_data_cases [OF ld] assms ld show ?thesis
    by (auto simp: loop_body_def Let_def
        split: option.splits if_splits prod.splits
        dest!: process_frame_Continue)
qed

text \<open>
  The loop, lines 84 to 210.  Every call is logged with the value \<open>cur_frame\<close> had when
  the iteration began, the index of the frame the iteration is about.  The loop always
  ends: \<open>end_frame\<close> bounds the iterations that advance \<open>cur_frame\<close>, and
  \<open>cur_frame - video_frame\<close> bounds the iterations that skip a frame of a capture.
\<close>

datatype phase = Setup | Frame int | Teardown

function run_loop :: "env \<Rightarrow> state \<Rightarrow> error option \<times> (phase \<times> event) list" where
  "run_loop env s =
     (case loop_body env s of
        (Continue s', ev) \<Rightarrow>
          (case run_loop env s' of
             (r, tr) \<Rightarrow> (r, map (Pair (Frame (cur_frame s))) ev @ tr))
      | (Break s', ev) \<Rightarrow> (None, map (Pair (Frame (cur_frame s))) ev)
      | (Crash e, ev) \<Rightarrow> (Some e, map (Pair (Frame (cur_frame s))) ev))"
  by pat_completeness auto
termination
proof (relation "measures [\<lambda>(env, s). nat (end_frame (e_args env) + 1 - cur_frame s),
                           \<lambda>(env, s). nat (cur_frame s - video_frame s)]")
  show "wf (measures [\<lambda>(env, s). nat (end_frame (e_args env) + 1 - cur_frame s),
                      \<lambda>(env, s). nat (cur_frame s - video_frame s)])"
    by simp
next
  fix env s x s' ev
  assume "(x, ev) = loop_body env s" and "x = Continue s'"
  then have "loop_body env s = (Continue s', ev)"
    by simp
  from loop_body_Continue [OF this]
  show "((env, s'), env, s)
        \<in> measures [\<lambda>(env, s). nat (end_frame (e_args env) + 1 - cur_frame s),
                     \<lambda>(env, s). nat (cur_frame s - video_frame s)]"
    by auto
qed

declare run_loop.simps [simp del]

subsection \<open>run\_hand\_mocap and main\<close>

text \<open>Lines 212 to 219, after the loop.\<close>

fun is_not_None :: "input_data \<Rightarrow> bool" where
  "is_not_None NoData = False"
| "is_not_None _ = True"

definition after_loop :: "env \<Rightarrow> string \<Rightarrow> event list" where
  "after_loop env od =
     (if \<not> no_video_out (e_args env) \<and> input_type env \<in> set [''video'', ''webcam'']
      then [GenVideoOut od (seq_name (e_args env))] else []) @
     (if input_type env = ''webcam'' \<and> is_not_None (e_input_data env) then [Release] else []) @
     [DestroyAllWindows]"

text \<open>
  Lines 58 to 219.  The window of \<open>NonBlockVisualizer\<close> is created before the output
  directory is asserted.
\<close>

definition run_hand_mocap :: "env \<Rightarrow> error option \<times> (phase \<times> event) list" where
  "run_hand_mocap env =
     (case out_dir (e_args env) of
        None \<Rightarrow>
          (Some (AssertionError ''Please specify output dir to store the results''),
           [(Setup, CreateWindow)])
      | Some od \<Rightarrow>
          (case run_loop env (init_state env) of
             (Some e, tr) \<Rightarrow> (Some e, (Setup, CreateWindow) # tr)
           | (None, tr) \<Rightarrow>
               (None, (Setup, CreateWindow) # tr @ map (Pair Teardown) (after_loop env od))))"


subsection \<open>Reading the log of an iteration\<close>

text \<open>
  The step of an iteration a call belongs to, as the source places it: selecting the
  frame (0), the boxes (1), the regression (2), the visualization (3), the saved
  results (4); 5 marks the calls made outside the loop.
\<close>

fun step :: "event \<Rightarrow> nat" where
  "step (Imread _) = 0"
| "step (CapRead _) = 0"
| "step PrintUsePrecomputed = 0"
| "step (MakeSubdir _) = 0"
| "step (Imwrite _ _) = 0"
| "step PrintSeparator = 1"
| "step (DetectHandBbox _) = 1"
| "step (SaveInfoToJson _ _ _) = 1"
| "step (PrintNoHand _) = 1"
| "step (Regress _ _) = 2"
| "step (AddGeometry _ _) = 3"
| "step (UpdateGeometry _ _) = 3"
| "step PollEvents = 3"
| "step UpdateRenderer = 3"
| "step (ExtractMesh _) = 3"
| "step (Visualize _ _ _) = 3"
| "step (ImShow _) = 3"
| "step (SaveResImg _ _ _) = 4"
| "step (SavePredToPkl _ _ _ _) = 4"
| "step (PrintProcessed _) = 4"
| "step _ = 5"

fun is_read :: "event \<Rightarrow> bool" where
  "is_read (Imread _) = True"
| "is_read (CapRead _) = True"
| "is_read _ = False"

fun is_Regress :: "event \<Rightarrow> bool" where
  "is_Regress (Regress _ _) = True"
| "is_Regress _ = False"

fun is_Visualize :: "event \<Rightarrow> bool" where
  "is_Visualize (Visualize _ _ _) = True"
| "is_Visualize _ = False"

fun is_SaveResImg :: "event \<Rightarrow> bool" where
  "is_SaveResImg (SaveResImg _ _ _) = True"
| "is_SaveResImg _ = False"

fun is_PrintProcessed :: "event \<Rightarrow> bool" where
  "is_PrintProcessed (PrintProcessed _) = True"
| "is_PrintProcessed _ = False"

definition calls :: "(event \<Rightarrow> bool) \<Rightarrow> event list \<Rightarrow> nat" where
  "calls P ev = length (filter P ev)"


subsection \<open>The sequence of calls of an iteration\<close>









subsection \<open>The frames of the source\<close>

text \<open>
  The image the source yields for the frame index \<open>g\<close>, seen from the state \<open>s\<close> of the
  loop: the image read from the \<open>g\<close>-th path or entry of a directory input, and for a
  capture the read that will be made when \<open>cur_frame\<close> is \<open>g\<close>, after the reads that are
  skipped until \<open>video_frame\<close> has caught up with \<open>cur_frame\<close>.  \<open>None\<close> when there is
  no such image.
\<close>

definition source_at :: "env \<Rightarrow> state \<Rightarrow> int \<Rightarrow> image option" where
  "source_at env s g =
     (if input_type env = ''image_dir'' then
        (case e_input_data env of
           ImageList ps \<Rightarrow>
             (if g < int (length ps) then
                (case py_index ps g of None \<Rightarrow> None | Some p \<Rightarrow> imread env p)
              else None)
         | _ \<Rightarrow> None)
      else if input_type env = ''bbox_dir'' then
        (case e_input_data env of
           BboxList es \<Rightarrow>
             (if g < int (length es) then
                (case py_index es g of None \<Rightarrow> None | Some e \<Rightarrow> imread env (be_image_path e))
              else None)
         | _ \<Rightarrow> None)
      else if input_type env = ''video'' \<or> input_type env = ''webcam'' then
        (case e_input_data env of
           Capture c \<Rightarrow>
             c (cap_pos s + nat (cur_frame s - video_frame s) + nat (g - cur_frame s))
         | _ \<Rightarrow> None)
      else None)"

text \<open>The image the source yields for the frame index \<open>g\<close> in a run of \<open>run_hand_mocap\<close>.\<close>

definition frame_at :: "env \<Rightarrow> int \<Rightarrow> image option" where
  "frame_at env g = source_at env (init_state env) g"

text \<open>The iteration that starts in \<open>s\<close> reads a frame of a capture and drops it (lines 108 to 110).\<close>

definition skipping :: "env \<Rightarrow> state \<Rightarrow> bool" where
  "skipping env s \<longleftrightarrow>
     (input_type env = ''video'' \<or> input_type env = ''webcam'')
     \<and> (case e_input_data env of Capture c \<Rightarrow> video_frame s < cur_frame s | _ \<Rightarrow> False)"

subsection \<open>The states a run goes through\<close>

text \<open>\<open>iterates env s s'\<close>: starting the loop in \<open>s\<close>, some iteration starts in \<open>s'\<close>.\<close>

inductive iterates :: "env \<Rightarrow> state \<Rightarrow> state \<Rightarrow> bool" for env where
  iterates_here: "iterates env s s"
| iterates_next: "loop_body env s = (Continue s1, ev) \<Longrightarrow> iterates env s1 s' \<Longrightarrow> iterates env s s'"

subsection \<open>Example inputs\<close>

text \<open>Concrete inputs on which the theorems below are instantiated.\<close>

definition ex_img :: image where
  "ex_img = \<lparr>img_h = 4, img_w = 6, img_data = 0\<rparr>"

definition ex_pred :: pred_output where
  "ex_pred =
     [(''left_hand'', Some [(''pred_joints_smpl'', [(1, 2, 3)])]), (''right_hand'', None)]"

definition ex_pred_right :: pred_output where
  "ex_pred_right =
     [(''left_hand'', None), (''right_hand'', Some [(''pred_joints_smpl'', [(5, 6, 7)])])]"

definition ex_args :: args where
  "ex_args =
     \<lparr>out_dir = Some ''out'', start_frame = 0, end_frame = 5, save_frame = True,
      crop_type = ''no_crop'', save_bbox_output = True, no_display = False,
      save_pred_pkl = True, no_video_out = False, seq_name = ''seq''\<rparr>"

definition ex_env :: env where
  "ex_env =
     \<lparr>e_args = ex_args, input_type = ''video'',
      e_input_data = Capture (\<lambda>n. if n < 2 then Some ex_img else None),
      imread = (\<lambda>p. Some ex_img),
      detect_hand_bbox = (\<lambda>i. ([[0, 0, 1, 1]], [[(''left_hand'', [0, 0, 1, 1])]])),
      regress = (\<lambda>i hb. [ex_pred]),
      extract_mesh_from_output = (\<lambda>p. [7]),
      visualize = (\<lambda>i m hb. 9),
      astype_uint8 = (\<lambda>r. r)\<rparr>"

definition ex_state :: state where
  "ex_state =
     \<lparr>cur_frame = 0, video_frame = 0, cap_pos = 0, image_path = Some ''a.jpg'',
      hand_bbox_list = None, body_bbox_list = Some [[0, 0, 1, 1]], vis_initialized = False\<rparr>"

text \<open>Precomputed boxes together with \<open>crop_type = hand_crop\<close>.\<close>

definition ex_bbox_env :: env where
  "ex_bbox_env =
     ex_env\<lparr>e_args := ex_args\<lparr>crop_type := ''hand_crop''\<rparr>, input_type := ''bbox_dir'',
            e_input_data := BboxList
              [\<lparr>be_image_path = ''a.jpg'',
                be_hand_bbox_list = [[(''left_hand'', [1, 1, 2, 2])]],
                be_body_bbox_list = [[0, 0, 5, 5]]\<rparr>]\<rparr>"

text \<open>A video of already cropped hands.\<close>

definition ex_crop_env :: env where
  "ex_crop_env = ex_env\<lparr>e_args := ex_args\<lparr>crop_type := ''hand_crop''\<rparr>\<rparr>"

text \<open>A detector that finds no hand, and the state after the first frame is loaded.\<close>

definition ex_nohand_env :: env where
  "ex_nohand_env = ex_env\<lparr>detect_hand_bbox := (\<lambda>i. ([], []))\<rparr>"

definition ex_nohand_loaded :: state where
  "ex_nohand_loaded =
     \<lparr>cur_frame = 0, video_frame = 1, cap_pos = 1,
      image_path = Some ''out/frames/00000.jpg'', hand_bbox_list = None,
      body_bbox_list = None, vis_initialized = False\<rparr>"

text \<open>The same two frames from a webcam.\<close>

definition ex_webcam_env :: env where
  "ex_webcam_env = ex_env\<lparr>input_type := ''webcam''\<rparr>"

text \<open>Cropped hands, without the JSON of the boxes.\<close>

definition ex_crop_quiet_env :: env where
  "ex_crop_quiet_env =
     ex_env\<lparr>e_args := ex_args\<lparr>crop_type := ''hand_crop'', save_bbox_output := False\<rparr>\<rparr>"

text \<open>A directory whose first image cannot be read.\<close>

definition ex_gap_env :: env where
  "ex_gap_env =
     ex_env\<lparr>input_type := ''image_dir'', e_input_data := ImageList [''bad.jpg'', ''good.jpg''],
            imread := (\<lambda>p. if p = ''bad.jpg'' then None else Some ex_img)\<rparr>"

text \<open>The two-frame video with \<open>end_frame = 1\<close>.\<close>

definition ex_short_env :: env where
  "ex_short_env = ex_env\<lparr>e_args := ex_args\<lparr>end_frame := 1\<rparr>\<rparr>"

text \<open>Cropped hands, the video started at its second frame.\<close>

definition ex_crop_late_env :: env where
  "ex_crop_late_env = ex_env\<lparr>e_args := ex_args\<lparr>crop_type := ''hand_crop'', start_frame := 1\<rparr>\<rparr>"

section \<open>Properties\<close>

subsection \<open>The fixed transform\<close>

lemma transform_point_flip_y: "transform_point flip_y (x, y, z) = (x, - y, z)"
  by (simp add: transform_point_def flip_y_def mat_row_def)

subsection \<open>Paths of the example frames\<close>

lemma frame_path_out_0: "frame_path ''out'' [] 0 = ''out/frames/00000.jpg''"
  by code_simp

lemma frame_path_out_1: "frame_path ''out'' [] 1 = ''out/frames/00001.jpg''"
  by code_simp

lemma frame_path_out_2: "frame_path ''out'' [] 2 = ''out/frames/00002.jpg''"
  by code_simp

lemma frame_path_scene_0: "frame_path ''out'' ''scene_'' 0 = ''out/frames/scene_00000.jpg''"
  by code_simp

lemma frame_path_scene_1: "frame_path ''out'' ''scene_'' 1 = ''out/frames/scene_00001.jpg''"
  by code_simp

lemma frame_path_scene_2: "frame_path ''out'' ''scene_'' 2 = ''out/frames/scene_00002.jpg''"
  by code_simp

subsection \<open>Unfolding one iteration on a concrete input\<close>

lemmas iteration_defs =
  loop_body_def load_data_def load_capture_def Let_def process_frame_def bbox_detection_def
  save_bbox_json_def regress_frame_def point_cloud_def first_left_joints_def
  render_and_save_def update_renderer_def transform_point_flip_y init_state_def

subsection \<open>The calls of one iteration\<close>

lemma calls_simps [simp]:
  "calls P [] = 0"
  "calls P (e # ev) = (if P e then Suc (calls P ev) else calls P ev)"
  "calls P (ev @ ev') = calls P ev + calls P ev'"
  by (simp_all add: calls_def)

lemma sorted_map_const:
  "\<forall>e \<in> set ev. f e = (c::nat) \<Longrightarrow> sorted (map f ev)"
  by (induction ev) auto

lemma load_capture_events:
  assumes "load_capture env s pfx = (r, ev)"
  shows "(\<forall>e \<in> set ev. step e = 0) \<and> calls is_read ev \<le> 1
         \<and> calls is_Regress ev = 0 \<and> calls is_Visualize ev = 0
         \<and> calls is_SaveResImg ev = 0 \<and> calls is_PrintProcessed ev = 0
         \<and> (\<forall>s1 img lb. r = LNext s1 (Some img) lb \<longrightarrow> calls is_read ev = 1)"
  using assms
  by (auto simp: load_capture_def Let_def split: input_data.splits option.splits if_splits)

lemma load_data_events:
  assumes "load_data env s = (r, ev)"
  shows "(\<forall>e \<in> set ev. step e = 0) \<and> calls is_read ev \<le> 1
         \<and> calls is_Regress ev = 0 \<and> calls is_Visualize ev = 0
         \<and> calls is_SaveResImg ev = 0 \<and> calls is_PrintProcessed ev = 0
         \<and> (\<forall>s1 img lb. r = LNext s1 (Some img) lb \<longrightarrow> calls is_read ev = 1)"
proof (cases "input_type env = ''video'' \<or> input_type env = ''webcam''")
  case True
  then have "\<exists>pfx. load_data env s = load_capture env s pfx"
    by (auto simp: load_data_def)
  with assms show ?thesis
    using load_capture_events by metis
next
  case False
  with assms show ?thesis
    by (auto simp: load_data_def split: input_data.splits option.splits if_splits)
qed

lemma render_and_save_events:
  assumes "render_and_save env s img hb bb preds = (oc, ev)"
  shows "sorted (map step ev) \<and> (\<forall>e \<in> set ev. 3 \<le> step e \<and> step e \<le> 4)
         \<and> calls is_Regress ev = 0 \<and> calls is_read ev = 0 \<and> calls is_Visualize ev = 1
         \<and> calls is_SaveResImg ev \<le> 1
         \<and> (calls is_PrintProcessed ev = (case oc of Continue _ \<Rightarrow> 1 | _ \<Rightarrow> 0))
         \<and> (calls is_PrintProcessed ev = 1 \<and> out_dir (e_args env) \<noteq> None
              \<longrightarrow> calls is_SaveResImg ev = 1)"
  using assms
  by (auto simp: render_and_save_def Let_def split: option.splits if_splits)


lemma regress_frame_events:
  assumes "regress_frame env s img hb = (oc, ev)"
  shows "sorted (map step ev) \<and> (\<forall>e \<in> set ev. 2 \<le> step e \<and> step e \<le> 4)
         \<and> calls is_Regress ev = 1 \<and> calls is_read ev = 0 \<and> calls is_Visualize ev \<le> 1
         \<and> calls is_SaveResImg ev \<le> 1
         \<and> (calls is_PrintProcessed ev = (case oc of Continue _ \<Rightarrow> 1 | _ \<Rightarrow> 0))
         \<and> (calls is_PrintProcessed ev = 1
              \<longrightarrow> calls is_Visualize ev = 1
                \<and> (out_dir (e_args env) \<noteq> None \<longrightarrow> calls is_SaveResImg ev = 1))"
proof (cases "\<exists>bb pts. body_bbox_list s = Some bb \<and> length hb = length bb
      \<and> length bb = length (regress env img hb)
      \<and> point_cloud (regress env img hb) = Inr pts")
  case False
  with assms have "ev = [Regress img hb] \<and> (\<exists>e. oc = Crash e)"
    by (auto simp: regress_frame_def Let_def split: option.splits if_splits sum.splits)
  then show ?thesis by auto
next
  case True
  then obtain bb pts where b: "body_bbox_list s = Some bb" "length hb = length bb"
    "length bb = length (regress env img hb)" "point_cloud (regress env img hb) = Inr pts"
    by blast
  obtain oc' ev' where r: "render_and_save env (s\<lparr>vis_initialized := True\<rparr>) img hb bb
      (regress env img hb) = (oc', ev')"
    by (cases "render_and_save env (s\<lparr>vis_initialized := True\<rparr>) img hb bb (regress env img hb)")
  from assms b r have ev: "oc = oc'"
    "ev = [Regress img hb,
           (if \<not> vis_initialized s then AddGeometry pts colors else UpdateGeometry pts colors),
           PollEvents, UpdateRenderer] @ ev'"
    by (auto simp: regress_frame_def Let_def update_renderer_def)
  from render_and_save_events [OF r] ev show ?thesis
    by (auto simp: sorted_append)
qed

lemma bbox_detection_events:
  assumes "bbox_detection env s img lb = (r, ev)"
  shows "(\<forall>e \<in> set ev. step e = 1) \<and> length ev \<le> 1 \<and> calls is_Regress ev = 0
         \<and> calls is_read ev = 0 \<and> calls is_Visualize ev = 0 \<and> calls is_SaveResImg ev = 0
         \<and> calls is_PrintProcessed ev = 0"
  using assms
  by (auto simp: bbox_detection_def split: if_splits prod.splits)

lemma save_bbox_json_events:
  assumes "save_bbox_json env s = (r, ev)"
  shows "(\<forall>e \<in> set ev. step e = 1) \<and> length ev \<le> 1 \<and> calls is_Regress ev = 0
         \<and> calls is_read ev = 0 \<and> calls is_Visualize ev = 0 \<and> calls is_SaveResImg ev = 0
         \<and> calls is_PrintProcessed ev = 0"
  using assms
  by (auto simp: save_bbox_json_def split: if_splits option.splits)

lemma process_frame_events:
  assumes "process_frame env s img lb = (oc, ev)"
  shows "sorted (map step ev) \<and> (\<forall>e \<in> set ev. 1 \<le> step e \<and> step e \<le> 4)
         \<and> calls is_Regress ev \<le> 1 \<and> calls is_read ev = 0 \<and> calls is_Visualize ev \<le> 1
         \<and> calls is_SaveResImg ev \<le> 1 \<and> calls is_PrintProcessed ev \<le> 1
         \<and> (calls is_PrintProcessed ev = 1
              \<longrightarrow> calls is_Regress ev = 1 \<and> calls is_Visualize ev = 1
                \<and> (out_dir (e_args env) \<noteq> None \<longrightarrow> calls is_SaveResImg ev = 1)
                \<and> (\<exists>s'. oc = Continue s'))"
proof -
  obtain r1 ev1 where b: "bbox_detection env s img lb = (r1, ev1)"
    by (cases "bbox_detection env s img lb")
  note e1 = bbox_detection_events [OF b]
  show ?thesis
  proof (cases r1)
    case (Inl e)
    with assms b have "ev = ev1" by (simp add: process_frame_def)
    with e1 sorted_map_const [of ev1 step 1] show ?thesis by auto
  next
    case (Inr s1)
    obtain r2 ev2 where j: "save_bbox_json env s1 = (r2, ev2)"
      by (cases "save_bbox_json env s1")
    note e2 = save_bbox_json_events [OF j]
    have s12: "sorted (map step (ev1 @ ev2))" "\<forall>e \<in> set (ev1 @ ev2). step e = 1"
      using e1 e2 sorted_map_const [of "ev1 @ ev2" step 1] by auto
    show ?thesis
    proof (cases "\<exists>hb. r2 = Inr () \<and> hand_bbox_list s1 = Some hb \<and> \<not> length hb < 1")
      case False
      with assms b j Inr have "ev = ev1 @ ev2 \<or> (\<exists>p. ev = ev1 @ ev2 @ [PrintNoHand p])"
        by (auto simp: process_frame_def split: sum.splits option.splits if_splits)
      with s12 e1 e2 show ?thesis
        by (auto simp: sorted_append)
    next
      case True
      then obtain hb where h: "r2 = Inr ()" "hand_bbox_list s1 = Some hb" "\<not> length hb < 1"
        by blast
      obtain oc3 ev3 where g: "regress_frame env s1 img hb = (oc3, ev3)"
        by (cases "regress_frame env s1 img hb")
      from assms b j Inr h g have ev: "ev = (ev1 @ ev2) @ ev3" and oc: "oc = oc3"
        by (simp_all add: process_frame_def)
      from regress_frame_events [OF g] s12 e1 e2 show ?thesis
        unfolding ev oc by (auto simp: sorted_append split: outcome.splits)
    qed
  qed
qed

subsection \<open>The calls of the parts of an iteration, by name\<close>







subsection \<open>The parts of one iteration\<close>

lemma load_capture_LNext:
  assumes "load_capture env s pfx = (LNext s1 io lb, ev)"
  shows "cur_frame s1 = cur_frame s \<and> vis_initialized s1 = vis_initialized s
         \<and> \<not> lb \<and> body_bbox_list s1 = body_bbox_list s \<and> hand_bbox_list s1 = hand_bbox_list s
         \<and> (\<exists>p. image_path s1 = Some p)"
  using assms
  by (auto simp: load_capture_def Let_def split: input_data.splits option.splits if_splits)

lemma load_data_LNext:
  assumes "load_data env s = (LNext s1 io lb, ev)"
  shows "cur_frame s1 = cur_frame s \<and> vis_initialized s1 = vis_initialized s
         \<and> (lb \<longrightarrow> input_type env = ''bbox_dir''
               \<and> (\<exists>hb bb. hand_bbox_list s1 = Some hb \<and> body_bbox_list s1 = Some bb))
         \<and> (\<not> lb \<longrightarrow> body_bbox_list s1 = body_bbox_list s
               \<and> hand_bbox_list s1 = hand_bbox_list s)
         \<and> (io \<noteq> None \<longrightarrow> (lb \<longleftrightarrow> input_type env = ''bbox_dir'')
               \<and> (\<exists>p. image_path s1 = Some p))"
proof (cases "input_type env = ''video'' \<or> input_type env = ''webcam''")
  case True
  then have "\<exists>pfx. load_data env s = load_capture env s pfx"
    by (auto simp: load_data_def)
  with assms obtain pfx where "load_capture env s pfx = (LNext s1 io lb, ev)"
    by auto
  from load_capture_LNext [OF this] True show ?thesis
    by auto
next
  case False
  with assms show ?thesis
    by (auto simp: load_data_def split: input_data.splits option.splits if_splits)
qed

lemma loop_body_processed:
  assumes "loop_body env s = (oc, ev)" and "PrintSeparator \<in> set ev"
  shows "\<exists>s1 img lb ev1 ev2.
           load_data env s = (LNext s1 (Some img) lb, ev1)
           \<and> cur_frame s + 1 \<le> end_frame (e_args env)
           \<and> process_frame env (s1\<lparr>cur_frame := cur_frame s + 1\<rparr>) img lb = (oc, ev2)
           \<and> ev = ev1 @ PrintSeparator # ev2"
proof -
  obtain r ev1 where ld: "load_data env s = (r, ev1)"
    by (cases "load_data env s")
  from load_data_events [OF ld] have n: "PrintSeparator \<notin> set ev1"
    by auto
  show ?thesis
  proof (cases "\<exists>s1 img lb. r = LNext s1 (Some img) lb
      \<and> \<not> cur_frame s1 + 1 > end_frame (e_args env)")
    case False
    with assms ld have "ev = ev1"
      by (auto simp: loop_body_def Let_def split: load_result.splits option.splits if_splits)
    with n assms show ?thesis by simp
  next
    case True
    then obtain s1 img lb where r: "r = LNext s1 (Some img) lb"
      "\<not> cur_frame s1 + 1 > end_frame (e_args env)"
      by blast
    from load_data_LNext ld r have cf: "cur_frame s1 = cur_frame s" by blast
    obtain oc2 ev2 where
      p: "process_frame env (s1\<lparr>cur_frame := cur_frame s + 1\<rparr>) img lb = (oc2, ev2)"
      by (cases "process_frame env (s1\<lparr>cur_frame := cur_frame s + 1\<rparr>) img lb")
    from assms ld r p cf have "ev = ev1 @ PrintSeparator # ev2" "oc = oc2"
      by (simp_all add: loop_body_def Let_def)
    with ld r p cf show ?thesis by auto
  qed
qed

lemma loop_body_of_load:
  assumes "load_data env s = (LNext s1 (Some img) lb, ev1)"
    and "cur_frame s + 1 \<le> end_frame (e_args env)"
    and "process_frame env (s1\<lparr>cur_frame := cur_frame s + 1\<rparr>) img lb = (oc, ev2)"
  shows "loop_body env s = (oc, ev1 @ PrintSeparator # ev2)"
proof -
  from load_data_LNext [OF assms(1)] have "cur_frame s1 = cur_frame s" by blast
  with assms show ?thesis
    by (simp add: loop_body_def Let_def)
qed

lemma bbox_detection_keeps:
  assumes "bbox_detection env s img lb = (Inr s1, ev)"
  shows "cur_frame s1 = cur_frame s \<and> image_path s1 = image_path s
         \<and> vis_initialized s1 = vis_initialized s \<and> video_frame s1 = video_frame s
         \<and> cap_pos s1 = cap_pos s"
  using assms by (auto simp: bbox_detection_def split: if_splits prod.splits)

lemma load_capture_LSkip:
  assumes "load_capture env s pfx = (LSkip s1, ev)"
  shows "s1 = s\<lparr>cap_pos := Suc (cap_pos s), video_frame := video_frame s + 1\<rparr>
         \<and> video_frame s < cur_frame s
         \<and> (\<exists>f. e_input_data env = Capture f \<and> ev = [CapRead (f (cap_pos s))])"
  using assms
  by (auto simp: load_capture_def Let_def split: input_data.splits option.splits if_splits)

lemma load_data_LSkip:
  assumes "load_data env s = (LSkip s1, ev)"
  shows "s1 = s\<lparr>cap_pos := Suc (cap_pos s), video_frame := video_frame s + 1\<rparr>
         \<and> video_frame s < cur_frame s
         \<and> (input_type env = ''video'' \<or> input_type env = ''webcam'')
         \<and> (\<exists>f. e_input_data env = Capture f \<and> ev = [CapRead (f (cap_pos s))])"
proof (cases "input_type env = ''video'' \<or> input_type env = ''webcam''")
  case True
  then have "\<exists>pfx. load_data env s = load_capture env s pfx"
    by (auto simp: load_data_def)
  with assms obtain pfx where "load_capture env s pfx = (LSkip s1, ev)"
    by auto
  from load_capture_LSkip [OF this] True show ?thesis
    by auto
next
  case False
  with assms show ?thesis
    by (auto simp: load_data_def split: input_data.splits option.splits if_splits)
qed

lemma loop_body_skip:
  assumes "loop_body env s = (Continue s', ev)" and "PrintSeparator \<notin> set ev"
  shows "s' = s\<lparr>cap_pos := Suc (cap_pos s), video_frame := video_frame s + 1\<rparr>
         \<and> video_frame s < cur_frame s
         \<and> (input_type env = ''video'' \<or> input_type env = ''webcam'')
         \<and> (\<exists>f. e_input_data env = Capture f \<and> ev = [CapRead (f (cap_pos s))])"
proof -
  obtain r ev1 where ld: "load_data env s = (r, ev1)"
    by (cases "load_data env s")
  show ?thesis
  proof (cases r)
    case (LCrash e)
    with assms ld show ?thesis by (simp add: loop_body_def)
  next
    case (LSkip s1)
    with assms ld have "s' = s1" "ev = ev1" by (simp_all add: loop_body_def)
    with load_data_LSkip ld LSkip show ?thesis by blast
  next
    case (LNext s1 io lb)
    with assms ld show ?thesis
      by (auto simp: loop_body_def Let_def split: option.splits if_splits prod.splits)
  qed
qed


subsection \<open>The calls of a whole iteration\<close>

lemma loop_body_events:
  assumes "loop_body env s = (oc, ev)"
  shows "sorted (map step ev) \<and> (\<forall>e \<in> set ev. step e \<le> 4)
         \<and> calls is_read ev \<le> 1 \<and> calls is_Regress ev \<le> 1 \<and> calls is_Visualize ev \<le> 1
         \<and> calls is_SaveResImg ev \<le> 1 \<and> calls is_PrintProcessed ev \<le> 1
         \<and> (calls is_PrintProcessed ev = 1
              \<longrightarrow> calls is_read ev = 1 \<and> calls is_Regress ev = 1 \<and> calls is_Visualize ev = 1
                \<and> (out_dir (e_args env) \<noteq> None \<longrightarrow> calls is_SaveResImg ev = 1)
                \<and> (\<exists>s'. oc = Continue s' \<and> cur_frame s' = cur_frame s + 1))"
proof -
  obtain r ev1 where ld: "load_data env s = (r, ev1)"
    by (cases "load_data env s")
  note e1 = load_data_events [OF ld]
  have s1: "sorted (map step ev1)"
    using e1 sorted_map_const [of ev1 step 0] by simp
  show ?thesis
  proof (cases "\<exists>s1 img lb. r = LNext s1 (Some img) lb
      \<and> \<not> cur_frame s1 + 1 > end_frame (e_args env)")
    case False
    with assms ld have "ev = ev1"
      by (auto simp: loop_body_def Let_def split: load_result.splits option.splits if_splits)
    with e1 s1 show ?thesis by auto
  next
    case True
    then obtain s1 img lb where r: "r = LNext s1 (Some img) lb"
      "\<not> cur_frame s1 + 1 > end_frame (e_args env)"
      by blast
    obtain oc2 ev2 where
      p: "process_frame env (s1\<lparr>cur_frame := cur_frame s1 + 1\<rparr>) img lb = (oc2, ev2)"
      by (cases "process_frame env (s1\<lparr>cur_frame := cur_frame s1 + 1\<rparr>) img lb")
    from assms ld r p have ev: "ev = ev1 @ PrintSeparator # ev2" and oc: "oc = oc2"
      by (simp_all add: loop_body_def Let_def)
    from e1 r have rd: "calls is_read ev1 = 1" by blast
    from load_data_cases [OF ld] r have cf: "cur_frame s1 = cur_frame s" by auto
    have adv: "\<And>s'. oc2 = Continue s' \<Longrightarrow> cur_frame s' = cur_frame s + 1"
      using process_frame_Continue p cf by fastforce
    from process_frame_events [OF p] e1 s1 rd adv show ?thesis
      unfolding ev oc by (auto simp: sorted_append)
  qed
qed

subsection \<open>Induction over the iterations\<close>

lemma run_loop_Continue:
  assumes "loop_body env s = (Continue s', ev)"
  shows "run_loop env s =
           (fst (run_loop env s'), map (Pair (Frame (cur_frame s))) ev @ snd (run_loop env s'))"
  using assms by (subst run_loop.simps) (simp split: prod.splits)

lemma run_loop_Break:
  assumes "loop_body env s = (Break s', ev)"
  shows "run_loop env s = (None, map (Pair (Frame (cur_frame s))) ev)"
  using assms by (subst run_loop.simps) simp

lemma run_loop_Crash:
  assumes "loop_body env s = (Crash e, ev)"
  shows "run_loop env s = (Some e, map (Pair (Frame (cur_frame s))) ev)"
  using assms by (subst run_loop.simps) simp

lemma run_loop_induct [consumes 0, case_names Continue Break Crash]:
  assumes "\<And>s s' ev. loop_body env s = (Continue s', ev) \<Longrightarrow> P s' \<Longrightarrow> P s"
    and "\<And>s s' ev. loop_body env s = (Break s', ev) \<Longrightarrow> P s"
    and "\<And>s e ev. loop_body env s = (Crash e, ev) \<Longrightarrow> P s"
  shows "P s"
proof -
  have "env' = env \<longrightarrow> P s" for env'
  proof (induction env' s rule: run_loop.induct)
    case (1 env' s)
    show ?case
    proof
      assume eq: "env' = env"
      obtain oc ev where lb: "loop_body env s = (oc, ev)"
        by (cases "loop_body env s")
      show "P s"
      proof (cases oc)
        case (Continue s')
        from lb eq have "(oc, ev) = loop_body env' s" by simp
        from 1 [OF this Continue] eq have "P s'" by simp
        with lb Continue assms(1) show ?thesis by simp
      next
        case (Break s')
        with lb assms(2) show ?thesis by simp
      next
        case (Crash e)
        with lb assms(3) show ?thesis by simp
      qed
    qed
  qed
  then show ?thesis by simp
qed

lemma run_loop_tags:
  "\<forall>x \<in> set (snd (run_loop env s)). \<exists>f e. x = (Frame f, e) \<and> step e \<le> 4"
proof (induction s rule: run_loop_induct [where env = env])
  case (Continue s s' ev)
  from loop_body_events [OF Continue(1)] have "\<forall>e \<in> set ev. step e \<le> 4" by simp
  with Continue show ?case
    by (auto simp: run_loop_Continue)
next
  case (Break s s' ev)
  from loop_body_events [OF Break(1)] have "\<forall>e \<in> set ev. step e \<le> 4" by simp
  with Break show ?case
    by (auto simp: run_loop_Break)
next
  case (Crash s e ev)
  from loop_body_events [OF Crash(1)] have "\<forall>e \<in> set ev. step e \<le> 4" by simp
  with Crash show ?case
    by (auto simp: run_loop_Crash)
qed

subsection \<open>The sequence of calls of a whole iteration\<close>
















subsection \<open>The trace of a run\<close>

lemma run_loop_no_teardown_calls:
  assumes "(ph, e) \<in> set (snd (run_loop env s))"
  shows "(\<exists>f. ph = Frame f) \<and> e \<noteq> Release \<and> e \<noteq> DestroyAllWindows \<and> e \<noteq> CreateWindow
         \<and> (\<forall>od sq. e \<noteq> GenVideoOut od sq)"
  using run_loop_tags [of env s] assms by fastforce

lemma after_loop_calls:
  "((\<exists>od' sq. GenVideoOut od' sq \<in> set (after_loop env od))
      \<longleftrightarrow> input_type env \<in> {''video'', ''webcam''} \<and> \<not> no_video_out (e_args env))
   \<and> (\<forall>od' sq. GenVideoOut od' sq \<in> set (after_loop env od)
         \<longrightarrow> od' = od \<and> sq = seq_name (e_args env))
   \<and> (Release \<in> set (after_loop env od)
         \<longleftrightarrow> input_type env = ''webcam'' \<and> is_not_None (e_input_data env))
   \<and> last (after_loop env od) = DestroyAllWindows"
  by (auto simp: after_loop_def)

lemma run_hand_mocap_trace:
  assumes "run_hand_mocap env = (res, tr)"
  obtains (no_out_dir) "out_dir (e_args env) = None" "tr = [(Setup, CreateWindow)]"
      "res = Some (AssertionError ''Please specify output dir to store the results'')"
  | (aborted) od e ltr where "out_dir (e_args env) = Some od"
      "run_loop env (init_state env) = (Some e, ltr)" "res = Some e"
      "tr = (Setup, CreateWindow) # ltr"
  | (finished) od ltr where "out_dir (e_args env) = Some od"
      "run_loop env (init_state env) = (None, ltr)" "res = None"
      "tr = (Setup, CreateWindow) # ltr @ map (Pair Teardown) (after_loop env od)"
  using assms
  by (cases "run_loop env (init_state env)")
     (auto simp: run_hand_mocap_def split: option.splits)

lemma loop_trace_calls:
  assumes "run_loop env s = (r, ltr)" and "(ph, e) \<in> set ltr"
  shows "(\<exists>f. ph = Frame f) \<and> e \<noteq> Release \<and> e \<noteq> DestroyAllWindows \<and> e \<noteq> CreateWindow
         \<and> (\<forall>od sq. e \<noteq> GenVideoOut od sq)"
  using run_loop_no_teardown_calls [of ph e env s] assms by simp

lemma webcam_needs_capture:
  assumes "input_type env = ''webcam''" and "run_loop env s = (None, ltr)"
  shows "is_not_None (e_input_data env)"
proof (rule ccontr)
  assume "\<not> is_not_None (e_input_data env)"
  then have "e_input_data env = NoData"
    by (cases "e_input_data env") simp_all
  with assms(1) have "loop_body env s = (Crash AttributeError, [])"
    by (simp add: loop_body_def load_data_def load_capture_def)
  from run_loop_Crash [OF this] assms(2) show False
    by simp
qed

lemma ex_env_run:
  "fst (run_hand_mocap ex_env) = None
   \<and> (Teardown, GenVideoOut ''out'' ''seq'') \<in> set (snd (run_hand_mocap ex_env))
   \<and> (\<forall>ph. (ph, Release) \<notin> set (snd (run_hand_mocap ex_env)))"
  by (simp add: run_hand_mocap_def run_loop.simps ex_env_def ex_args_def ex_pred_def ex_img_def
      iteration_defs frame_path_out_0 frame_path_out_1 frame_path_out_2 after_loop_def)

lemma ex_webcam_env_run:
  "fst (run_hand_mocap ex_webcam_env) = None
   \<and> (Teardown, GenVideoOut ''out'' ''seq'') \<in> set (snd (run_hand_mocap ex_webcam_env))
   \<and> (Teardown, Release) \<in> set (snd (run_hand_mocap ex_webcam_env))"
  by (simp add: run_hand_mocap_def run_loop.simps ex_webcam_env_def ex_env_def ex_args_def ex_pred_def ex_img_def
      iteration_defs frame_path_scene_0 frame_path_scene_1 frame_path_scene_2 after_loop_def)

lemma ex_crop_quiet_env_first_iteration:
  "loop_body ex_crop_quiet_env (init_state ex_crop_quiet_env) =
     (Crash (UnboundLocalError ''body_bbox_list''),
      [CapRead (Some ex_img), MakeSubdir ''out/frames/00000.jpg'',
       Imwrite ''out/frames/00000.jpg'' ex_img, PrintSeparator,
       Regress ex_img [[(''right_hand'', [0, 0, 6, 4])]]])"
  by (simp add: ex_crop_quiet_env_def ex_env_def ex_args_def ex_img_def iteration_defs
      frame_path_out_0)

subsection \<open>The order of the calls in an iteration\<close>

lemma ex_env_first_iteration:
  "snd (loop_body ex_env (init_state ex_env)) =
     [CapRead (Some ex_img), MakeSubdir ''out/frames/00000.jpg'',
      Imwrite ''out/frames/00000.jpg'' ex_img, PrintSeparator, DetectHandBbox ex_img,
      SaveInfoToJson ''out/frames/00000.jpg'' [[0, 0, 1, 1]] [[(''left_hand'', [0, 0, 1, 1])]],
      Regress ex_img [[(''left_hand'', [0, 0, 1, 1])]],
      AddGeometry [(1, - 2, 3)] colors, PollEvents, UpdateRenderer, ExtractMesh [ex_pred],
      Visualize ex_img [7] [[(''left_hand'', [0, 0, 1, 1])]], ImShow 9,
      SaveResImg ''out'' ''out/frames/00000.jpg'' 9,
      SavePredToPkl ''out/frames/00000.jpg'' [[0, 0, 1, 1]] [[(''left_hand'', [0, 0, 1, 1])]]
        [ex_pred],
      PrintProcessed ''out/frames/00000.jpg'']"
  by (simp add: ex_env_def ex_args_def init_state_def loop_body_def load_data_def
      load_capture_def Let_def process_frame_def bbox_detection_def save_bbox_json_def
      regress_frame_def point_cloud_def first_left_joints_def render_and_save_def
      update_renderer_def ex_pred_def frame_path_out_0 transform_point_flip_y)




subsection \<open>When the detector runs\<close>

lemma bbox_detection_detects:
  assumes "bbox_detection env s img lb = (r, ev)"
  shows "((\<exists>i. DetectHandBbox i \<in> set ev) \<longleftrightarrow> \<not> lb \<and> crop_type (e_args env) = ''no_crop'')
         \<and> (\<forall>i. DetectHandBbox i \<in> set ev \<longrightarrow> i = img)"
  using assms
  by (auto simp: bbox_detection_def split: if_splits prod.splits)

lemma bbox_detection_hand_crop:
  assumes "crop_type (e_args env) = ''hand_crop''" and "\<not> lb"
  shows "bbox_detection env s img lb =
           (Inr (s\<lparr>hand_bbox_list :=
                     Some [[(''right_hand'', [0, 0, int (img_w img), int (img_h img)])]]\<rparr>), [])"
  using assms by (simp add: bbox_detection_def)

lemma not_detect_after_boxes:
  assumes "save_bbox_json env s = (r, ev)"
  shows "DetectHandBbox i \<notin> set ev"
  using assms by (auto simp: save_bbox_json_def split: if_splits option.splits)

lemma regress_frame_args:
  assumes "regress_frame env s img hb = (oc, ev)"
  shows "DetectHandBbox i \<notin> set ev \<and> (\<forall>img' hb'. Regress img' hb' \<in> set ev \<longrightarrow> img' = img \<and> hb' = hb)"
  using assms
  by (auto simp: regress_frame_def Let_def update_renderer_def render_and_save_def
      split: option.splits if_splits sum.splits)

lemma process_frame_boxes:
  assumes "process_frame env s img lb = (oc, ev)"
  shows "((\<exists>i. DetectHandBbox i \<in> set ev) \<longleftrightarrow> \<not> lb \<and> crop_type (e_args env) = ''no_crop'')
         \<and> (\<forall>i hb. Regress i hb \<in> set ev \<longrightarrow> i = img)
         \<and> (crop_type (e_args env) = ''hand_crop'' \<and> \<not> lb \<longrightarrow>
              (\<forall>i hb. Regress i hb \<in> set ev \<longrightarrow>
                 hb = [[(''right_hand'', [0, 0, int (img_w img), int (img_h img)])]]))"
proof -
  obtain r1 ev1 where b: "bbox_detection env s img lb = (r1, ev1)"
    by (cases "bbox_detection env s img lb")
  note d = bbox_detection_detects [OF b] bbox_detection_events [OF b]
  have nr1: "\<And>i hb. Regress i hb \<notin> set ev1"
    using d by fastforce
  show ?thesis
  proof (cases r1)
    case (Inl e)
    with assms b have "ev = ev1" by (simp add: process_frame_def)
    with d nr1 show ?thesis by auto
  next
    case (Inr s1)
    obtain r2 ev2 where j: "save_bbox_json env s1 = (r2, ev2)"
      by (cases "save_bbox_json env s1")
    note e2 = not_detect_after_boxes [OF j] save_bbox_json_events [OF j]
    have nr2: "\<And>i hb. Regress i hb \<notin> set ev2"
      using e2 by fastforce
    show ?thesis
    proof (cases "\<exists>hb. r2 = Inr () \<and> hand_bbox_list s1 = Some hb \<and> \<not> length hb < 1")
      case False
      with assms b j Inr have "ev = ev1 @ ev2 \<or> (\<exists>p. ev = ev1 @ ev2 @ [PrintNoHand p])"
        by (auto simp: process_frame_def split: sum.splits option.splits if_splits)
      with d e2 nr1 nr2 show ?thesis
        by auto
    next
      case True
      then obtain hb where h: "r2 = Inr ()" "hand_bbox_list s1 = Some hb" "\<not> length hb < 1"
        by blast
      obtain oc3 ev3 where g: "regress_frame env s1 img hb = (oc3, ev3)"
        by (cases "regress_frame env s1 img hb")
      from assms b j Inr h g have ev: "ev = (ev1 @ ev2) @ ev3"
        by (simp add: process_frame_def)
      have hc: "crop_type (e_args env) = ''hand_crop'' \<and> \<not> lb \<Longrightarrow>
          hb = [[(''right_hand'', [0, 0, int (img_w img), int (img_h img)])]]"
        using b Inr h bbox_detection_hand_crop [of env lb s img] by auto
      from regress_frame_args [OF g] d e2 nr1 nr2 hc show ?thesis
        unfolding ev by auto
    qed
  qed
qed

lemma process_frame_preloaded:
  assumes "process_frame env s img True = (oc, ev)"
  shows "(\<forall>i hb. Regress i hb \<in> set ev \<longrightarrow> hand_bbox_list s = Some hb)
         \<and> (\<forall>p bb hb. SaveInfoToJson p bb hb \<in> set ev \<longrightarrow>
               image_path s = Some p \<and> body_bbox_list s = Some bb \<and> hand_bbox_list s = Some hb)"
proof -
  have b: "bbox_detection env s img True = (Inr s, [])"
    by (simp add: bbox_detection_def)
  obtain r2 ev2 where j: "save_bbox_json env s = (r2, ev2)"
    by (cases "save_bbox_json env s")
  from j have js: "\<forall>p bb hb. SaveInfoToJson p bb hb \<in> set ev2 \<longrightarrow>
      image_path s = Some p \<and> body_bbox_list s = Some bb \<and> hand_bbox_list s = Some hb"
    by (auto simp: save_bbox_json_def split: if_splits option.splits)
  from save_bbox_json_events [OF j] have nr2: "\<And>i hb. Regress i hb \<notin> set ev2"
    by fastforce
  show ?thesis
  proof (cases "\<exists>hb. r2 = Inr () \<and> hand_bbox_list s = Some hb \<and> \<not> length hb < 1")
    case False
    with assms b j have "ev = ev2 \<or> (\<exists>p. ev = ev2 @ [PrintNoHand p])"
      by (auto simp: process_frame_def split: sum.splits option.splits if_splits)
    with js nr2 show ?thesis by auto
  next
    case True
    then obtain hb where h: "r2 = Inr ()" "hand_bbox_list s = Some hb" "\<not> length hb < 1"
      by blast
    obtain oc3 ev3 where g: "regress_frame env s img hb = (oc3, ev3)"
      by (cases "regress_frame env s img hb")
    from assms b j h g have ev: "ev = ev2 @ ev3"
      by (simp add: process_frame_def)
    from g have n3: "\<And>p bb hb'. SaveInfoToJson p bb hb' \<notin> set ev3"
      using regress_frame_events [OF g] by fastforce
    from regress_frame_args [OF g] js nr2 n3 h show ?thesis
      unfolding ev by auto
  qed
qed

lemma load_data_bbox_dir:
  assumes "load_data env s = (LNext s1 (Some img) lb, ev1)" and "input_type env = ''bbox_dir''"
  shows "\<exists>es e. e_input_data env = BboxList es \<and> py_index es (cur_frame s) = Some e
           \<and> lb \<and> image_path s1 = Some (be_image_path e)
           \<and> hand_bbox_list s1 = Some (be_hand_bbox_list e)
           \<and> body_bbox_list s1 = Some (be_body_bbox_list e)
           \<and> ev1 = [PrintUsePrecomputed, Imread (be_image_path e)]"
  using assms
  by (auto simp: load_data_def split: input_data.splits option.splits if_splits)

lemma loop_body_bbox_dir:
  assumes lb: "loop_body env s = (oc, ev)" and ps: "PrintSeparator \<in> set ev"
    and bd: "input_type env = ''bbox_dir''"
  shows "\<exists>es e. e_input_data env = BboxList es \<and> py_index es (cur_frame s) = Some e
           \<and> (\<exists>s1 img.
                 load_data env s =
                   (LNext s1 (Some img) True, [PrintUsePrecomputed, Imread (be_image_path e)])
                 \<and> hand_bbox_list s1 = Some (be_hand_bbox_list e)
                 \<and> bbox_detection env (s1\<lparr>cur_frame := cur_frame s + 1\<rparr>) img True =
                     (Inr (s1\<lparr>cur_frame := cur_frame s + 1\<rparr>), []))
           \<and> (\<forall>i. DetectHandBbox i \<notin> set ev)
           \<and> (\<forall>i hb. Regress i hb \<in> set ev \<longrightarrow> hb = be_hand_bbox_list e)
           \<and> (\<forall>p bb hb. SaveInfoToJson p bb hb \<in> set ev \<longrightarrow>
                 bb = be_body_bbox_list e \<and> hb = be_hand_bbox_list e)"
proof -
  from loop_body_processed [OF lb ps] obtain s1 img lb' ev1 ev2 where
    ld: "load_data env s = (LNext s1 (Some img) lb', ev1)"
    and p: "process_frame env (s1\<lparr>cur_frame := cur_frame s + 1\<rparr>) img lb' = (oc, ev2)"
    and ev: "ev = ev1 @ PrintSeparator # ev2"
    by blast
  from load_data_bbox_dir [OF ld bd] obtain es e where
    e: "e_input_data env = BboxList es" "py_index es (cur_frame s) = Some e" "lb'"
    "hand_bbox_list s1 = Some (be_hand_bbox_list e)"
    "body_bbox_list s1 = Some (be_body_bbox_list e)"
    "ev1 = [PrintUsePrecomputed, Imread (be_image_path e)]"
    by blast
  from p e(3) have p': "process_frame env (s1\<lparr>cur_frame := cur_frame s + 1\<rparr>) img True = (oc, ev2)"
    by simp
  from process_frame_boxes [OF p'] have nd: "\<forall>i. DetectHandBbox i \<notin> set ev2"
    by simp
  from ld e(3,6) have ld': "load_data env s =
      (LNext s1 (Some img) True, [PrintUsePrecomputed, Imread (be_image_path e)])"
    by simp
  have bx: "bbox_detection env (s1\<lparr>cur_frame := cur_frame s + 1\<rparr>) img True =
      (Inr (s1\<lparr>cur_frame := cur_frame s + 1\<rparr>), [])"
    by (simp add: bbox_detection_def)
  from process_frame_preloaded [OF p'] e nd have
    "(\<forall>i. DetectHandBbox i \<notin> set ev)
     \<and> (\<forall>i hb. Regress i hb \<in> set ev \<longrightarrow> hb = be_hand_bbox_list e)
     \<and> (\<forall>p bb hb. SaveInfoToJson p bb hb \<in> set ev \<longrightarrow>
           bb = be_body_bbox_list e \<and> hb = be_hand_bbox_list e)"
    unfolding ev by auto
  with e(1,2,4) ld' bx show ?thesis by blast
qed

lemma loop_body_hand_crop_list:
  assumes lb: "loop_body env s = (oc, ev)" and ps: "PrintSeparator \<in> set ev"
    and hc: "crop_type (e_args env) = ''hand_crop''" and nb: "input_type env \<noteq> ''bbox_dir''"
  shows "\<exists>s1 img ev1. load_data env s = (LNext s1 (Some img) False, ev1)
           \<and> bbox_detection env (s1\<lparr>cur_frame := cur_frame s + 1\<rparr>) img False =
               (Inr (s1\<lparr>cur_frame := cur_frame s + 1,
                        hand_bbox_list :=
                          Some [[(''right_hand'', [0, 0, int (img_w img), int (img_h img)])]]\<rparr>),
                [])"
proof -
  from loop_body_processed [OF lb ps] obtain s1 img lb' ev1 ev2 where
    ld: "load_data env s = (LNext s1 (Some img) lb', ev1)"
    by blast
  from load_data_LNext [OF ld] nb have "\<not> lb'" by simp
  with ld hc show ?thesis
    by (auto simp: bbox_detection_def)
qed

lemma ex_env_detects:
  "PrintSeparator \<in> set (snd (loop_body ex_env (init_state ex_env)))
   \<and> DetectHandBbox ex_img \<in> set (snd (loop_body ex_env (init_state ex_env)))"
  by (simp add: ex_env_first_iteration)

lemma ex_bbox_env_first_iteration:
  "snd (loop_body ex_bbox_env (init_state ex_bbox_env)) =
     [PrintUsePrecomputed, Imread ''a.jpg'', PrintSeparator,
      SaveInfoToJson ''a.jpg'' [[0, 0, 5, 5]] [[(''left_hand'', [1, 1, 2, 2])]],
      Regress ex_img [[(''left_hand'', [1, 1, 2, 2])]],
      AddGeometry [(1, - 2, 3)] colors, PollEvents, UpdateRenderer, ExtractMesh [ex_pred],
      Visualize ex_img [7] [[(''left_hand'', [1, 1, 2, 2])]], ImShow 9,
      SaveResImg ''out'' ''a.jpg'' 9,
      SavePredToPkl ''a.jpg'' [[0, 0, 5, 5]] [[(''left_hand'', [1, 1, 2, 2])]] [ex_pred],
      PrintProcessed ''a.jpg'']"
  by (simp add: ex_bbox_env_def ex_env_def ex_args_def ex_pred_def iteration_defs py_index_def)

text \<open>
  C5, as the claim states it: whenever \<open>crop_type\<close> is \<open>hand_crop\<close> the hand box list
  is the single box covering the whole image.  With a \<open>bbox_dir\<close> input the boxes are
  the precomputed ones, whatever \<open>crop_type\<close> is: here the regression receives the
  precomputed left-hand box.
\<close>

theorem hand_crop_with_preloaded_boxes:
  "crop_type (e_args ex_bbox_env) = ''hand_crop''
   \<and> PrintSeparator \<in> set (snd (loop_body ex_bbox_env (init_state ex_bbox_env)))
   \<and> Regress ex_img [[(''left_hand'', [1, 1, 2, 2])]]
       \<in> set (snd (loop_body ex_bbox_env (init_state ex_bbox_env)))
   \<and> [[(''left_hand'', [1, 1, 2, 2])]]
       \<noteq> [[(''right_hand'', [0, 0, int (img_w ex_img), int (img_h ex_img)])]]"
  by (simp add: ex_bbox_env_first_iteration) (simp add: ex_bbox_env_def ex_args_def)

text \<open>
  C5, amended.  In every iteration that processes a frame, \<open>detect_hand_bbox\<close> is called
  if and only if the input is not a \<open>bbox_dir\<close> (the boxes were not preloaded) and
  \<open>crop_type\<close> is \<open>no_crop\<close>.  When \<open>crop_type\<close> is \<open>hand_crop\<close> and the boxes were
  not preloaded, the detector is not called, the box step binds \<open>hand_bbox_list\<close> to the
  single entry \<open>right_hand = [0, 0, img_w, img_h]\<close> of the image that was read, and that
  list is what the regression receives, when the iteration gets as far as the regression.
  With a \<open>bbox_dir\<close> input, whatever \<open>crop_type\<close> is, the detector is not called and the
  hand box list is the precomputed one of the entry at index \<open>cur_frame\<close>: frame selection
  binds \<open>hand_bbox_list\<close> to it, the box step leaves the state as it is, and the JSON save
  and the regression receive it.
\<close>

theorem detection_iff_not_preloaded_and_no_crop:
  assumes "loop_body env s = (oc, ev)" and "PrintSeparator \<in> set ev"
  shows "((\<exists>i. DetectHandBbox i \<in> set ev)
            \<longleftrightarrow> input_type env \<noteq> ''bbox_dir'' \<and> crop_type (e_args env) = ''no_crop'')
         \<and> (crop_type (e_args env) = ''hand_crop'' \<and> input_type env \<noteq> ''bbox_dir'' \<longrightarrow>
              (\<forall>i. DetectHandBbox i \<notin> set ev)
              \<and> (\<forall>i hb. Regress i hb \<in> set ev \<longrightarrow>
                    hb = [[(''right_hand'', [0, 0, int (img_w i), int (img_h i)])]])
              \<and> (\<exists>s1 img ev1. load_data env s = (LNext s1 (Some img) False, ev1)
                    \<and> bbox_detection env (s1\<lparr>cur_frame := cur_frame s + 1\<rparr>) img False =
                        (Inr (s1\<lparr>cur_frame := cur_frame s + 1,
                                 hand_bbox_list :=
                                   Some [[(''right_hand'',
                                           [0, 0, int (img_w img), int (img_h img)])]]\<rparr>),
                         [])))
         \<and> (input_type env = ''bbox_dir'' \<longrightarrow>
              (\<exists>es e. e_input_data env = BboxList es \<and> py_index es (cur_frame s) = Some e
                 \<and> (\<exists>s1 img.
                       load_data env s =
                         (LNext s1 (Some img) True,
                          [PrintUsePrecomputed, Imread (be_image_path e)])
                       \<and> hand_bbox_list s1 = Some (be_hand_bbox_list e)
                       \<and> bbox_detection env (s1\<lparr>cur_frame := cur_frame s + 1\<rparr>) img True =
                           (Inr (s1\<lparr>cur_frame := cur_frame s + 1\<rparr>), []))
                 \<and> (\<forall>i. DetectHandBbox i \<notin> set ev)
                 \<and> (\<forall>i hb. Regress i hb \<in> set ev \<longrightarrow> hb = be_hand_bbox_list e)
                 \<and> (\<forall>p bb hb. SaveInfoToJson p bb hb \<in> set ev \<longrightarrow>
                       bb = be_body_bbox_list e \<and> hb = be_hand_bbox_list e)))"
proof -
  from loop_body_processed [OF assms] obtain s1 img lb ev1 ev2 where
    ld: "load_data env s = (LNext s1 (Some img) lb, ev1)"
    and p: "process_frame env (s1\<lparr>cur_frame := cur_frame s + 1\<rparr>) img lb = (oc, ev2)"
    and ev: "ev = ev1 @ PrintSeparator # ev2"
    by blast
  from load_data_LNext [OF ld] have lb: "lb \<longleftrightarrow> input_type env = ''bbox_dir''"
    by simp
  from load_data_events [OF ld] have n1: "\<And>i. DetectHandBbox i \<notin> set ev1"
    "\<And>i hb. Regress i hb \<notin> set ev1"
    by fastforce+
  from process_frame_boxes [OF p] n1 lb have
    a: "((\<exists>i. DetectHandBbox i \<in> set ev)
            \<longleftrightarrow> input_type env \<noteq> ''bbox_dir'' \<and> crop_type (e_args env) = ''no_crop'')"
    and b: "crop_type (e_args env) = ''hand_crop'' \<and> input_type env \<noteq> ''bbox_dir'' \<longrightarrow>
              (\<forall>i. DetectHandBbox i \<notin> set ev)
              \<and> (\<forall>i hb. Regress i hb \<in> set ev \<longrightarrow>
                    hb = [[(''right_hand'', [0, 0, int (img_w i), int (img_h i)])]])"
    unfolding ev by auto
  from a b loop_body_hand_crop_list [OF assms] loop_body_bbox_dir [OF assms]
  show ?thesis
    by blast
qed

theorem detection_iff_not_preloaded_and_no_crop_witness:
  "PrintSeparator \<in> set (snd (loop_body ex_env (init_state ex_env)))
   \<and> (\<exists>i. DetectHandBbox i \<in> set (snd (loop_body ex_env (init_state ex_env))))
   \<and> input_type ex_env \<noteq> ''bbox_dir'' \<and> crop_type (e_args ex_env) = ''no_crop''
   \<and> PrintSeparator \<in> set (snd (loop_body ex_crop_quiet_env (init_state ex_crop_quiet_env)))
   \<and> crop_type (e_args ex_crop_quiet_env) = ''hand_crop''
   \<and> input_type ex_crop_quiet_env \<noteq> ''bbox_dir''
   \<and> (\<forall>i. DetectHandBbox i
         \<notin> set (snd (loop_body ex_crop_quiet_env (init_state ex_crop_quiet_env))))
   \<and> Regress ex_img [[(''right_hand'', [0, 0, int (img_w ex_img), int (img_h ex_img)])]]
       \<in> set (snd (loop_body ex_crop_quiet_env (init_state ex_crop_quiet_env)))
   \<and> PrintSeparator \<in> set (snd (loop_body ex_bbox_env (init_state ex_bbox_env)))
   \<and> input_type ex_bbox_env = ''bbox_dir'' \<and> crop_type (e_args ex_bbox_env) = ''hand_crop''
   \<and> (\<exists>es e. e_input_data ex_bbox_env = BboxList es
         \<and> py_index es (cur_frame (init_state ex_bbox_env)) = Some e
         \<and> (\<forall>i. DetectHandBbox i \<notin> set (snd (loop_body ex_bbox_env (init_state ex_bbox_env))))
         \<and> be_hand_bbox_list e = [[(''left_hand'', [1, 1, 2, 2])]])"
proof -
  have a: "loop_body ex_env (init_state ex_env) =
      (fst (loop_body ex_env (init_state ex_env)), snd (loop_body ex_env (init_state ex_env)))"
    and q: "loop_body ex_crop_quiet_env (init_state ex_crop_quiet_env) =
      (fst (loop_body ex_crop_quiet_env (init_state ex_crop_quiet_env)),
       snd (loop_body ex_crop_quiet_env (init_state ex_crop_quiet_env)))"
    and b: "loop_body ex_bbox_env (init_state ex_bbox_env) =
      (fst (loop_body ex_bbox_env (init_state ex_bbox_env)),
       snd (loop_body ex_bbox_env (init_state ex_bbox_env)))"
    by simp_all
  have pa: "PrintSeparator \<in> set (snd (loop_body ex_env (init_state ex_env)))"
    and pq: "PrintSeparator
      \<in> set (snd (loop_body ex_crop_quiet_env (init_state ex_crop_quiet_env)))"
    and pb: "PrintSeparator \<in> set (snd (loop_body ex_bbox_env (init_state ex_bbox_env)))"
    by (simp_all add: ex_env_first_iteration ex_crop_quiet_env_first_iteration
        ex_bbox_env_first_iteration)
  have ca: "input_type ex_env \<noteq> ''bbox_dir'' \<and> crop_type (e_args ex_env) = ''no_crop''"
    and cq: "crop_type (e_args ex_crop_quiet_env) = ''hand_crop''
      \<and> input_type ex_crop_quiet_env \<noteq> ''bbox_dir''"
    and cb: "input_type ex_bbox_env = ''bbox_dir''"
    and cb': "crop_type (e_args ex_bbox_env) = ''hand_crop''"
    by (simp_all add: ex_crop_quiet_env_def ex_bbox_env_def ex_env_def ex_args_def)
  have rq: "Regress ex_img [[(''right_hand'', [0, 0, int (img_w ex_img), int (img_h ex_img)])]]
      \<in> set (snd (loop_body ex_crop_quiet_env (init_state ex_crop_quiet_env)))"
    by (simp add: ex_crop_quiet_env_first_iteration ex_img_def)
  have rb: "Regress ex_img [[(''left_hand'', [1, 1, 2, 2])]]
      \<in> set (snd (loop_body ex_bbox_env (init_state ex_bbox_env)))"
    by (simp add: ex_bbox_env_first_iteration)
  note ta = detection_iff_not_preloaded_and_no_crop [OF a pa, THEN conjunct1, THEN iffD2, OF ca]
  note tq = detection_iff_not_preloaded_and_no_crop [OF q pq, THEN conjunct2, THEN conjunct1,
      THEN mp, OF cq, THEN conjunct1]
  note tb = detection_iff_not_preloaded_and_no_crop [OF b pb, THEN conjunct2, THEN conjunct2,
      THEN mp, OF cb]
  from tb obtain es e where
    e: "e_input_data ex_bbox_env = BboxList es"
    "py_index es (cur_frame (init_state ex_bbox_env)) = Some e"
    "\<forall>i. DetectHandBbox i \<notin> set (snd (loop_body ex_bbox_env (init_state ex_bbox_env)))"
    "\<forall>i hb. Regress i hb \<in> set (snd (loop_body ex_bbox_env (init_state ex_bbox_env)))
        \<longrightarrow> hb = be_hand_bbox_list e"
    by blast
  from e(4) [rule_format, OF rb] have "be_hand_bbox_list e = [[(''left_hand'', [1, 1, 2, 2])]]"
    by simp
  with e(1,2,3) have eb: "\<exists>es e. e_input_data ex_bbox_env = BboxList es
      \<and> py_index es (cur_frame (init_state ex_bbox_env)) = Some e
      \<and> (\<forall>i. DetectHandBbox i \<notin> set (snd (loop_body ex_bbox_env (init_state ex_bbox_env))))
      \<and> be_hand_bbox_list e = [[(''left_hand'', [1, 1, 2, 2])]]"
    by (intro exI conjI)
  from pa ta ca [THEN conjunct1] ca [THEN conjunct2] pq cq [THEN conjunct1] cq [THEN conjunct2]
    tq rq pb cb cb' eb
  show ?thesis
    by (intro conjI)
qed

subsection \<open>A frame without a hand\<close>

lemma bbox_detection_empty_bound:
  assumes "bbox_detection env s img lb = (Inr s1, ev)" and "hand_bbox_list s1 = Some []"
    and "lb \<longrightarrow> body_bbox_list s \<noteq> None"
  shows "\<exists>bb. body_bbox_list s1 = Some bb"
  using assms by (auto simp: bbox_detection_def split: if_splits prod.splits)

lemma process_frame_no_hand:
  assumes bd: "bbox_detection env s img lb = (Inr s1, ev1)"
    and empty: "hand_bbox_list s1 = Some []"
    and p: "image_path s1 = Some p" and bb: "body_bbox_list s1 = Some bb"
  shows "process_frame env s img lb =
           (Continue s1,
            ev1 @ (if save_bbox_output (e_args env) then [SaveInfoToJson p bb []] else [])
              @ [PrintNoHand p])"
  using assms by (simp add: process_frame_def save_bbox_json_def)

text \<open>
  C6.  When a frame has been loaded, lies within the frame range, and the hand box list
  left by lines 141 to 155 is empty, the iteration continues with the next frame
  (\<open>cur_frame\<close> is one more): its calls are those of loading the frame and of the boxes,
  the box JSON when \<open>save_bbox_output\<close> is set, and the message that no hand was found.
  There is no regression, no point cloud, no visualization, no result image and no pkl:
  no call of step 2 or later.
\<close>

theorem no_hand_frame_is_skipped:
  assumes ld: "load_data env s = (LNext s1 (Some img) lb, ev1)"
    and rng: "cur_frame s + 1 \<le> end_frame (e_args env)"
    and bd: "bbox_detection env (s1\<lparr>cur_frame := cur_frame s + 1\<rparr>) img lb = (Inr s2, ev2)"
    and empty: "hand_bbox_list s2 = Some []"
  shows "\<exists>p bb ev.
           image_path s2 = Some p \<and> body_bbox_list s2 = Some bb
           \<and> loop_body env s = (Continue s2, ev)
           \<and> ev = ev1 @ [PrintSeparator] @ ev2
                  @ (if save_bbox_output (e_args env) then [SaveInfoToJson p bb []] else [])
                  @ [PrintNoHand p]
           \<and> cur_frame s2 = cur_frame s + 1
           \<and> (\<forall>e \<in> set ev. step e \<le> 1)
           \<and> calls is_Regress ev = 0 \<and> calls is_Visualize ev = 0
           \<and> calls is_SaveResImg ev = 0"
proof -
  note l = load_data_LNext [OF ld]
  note k = bbox_detection_keeps [OF bd]
  from l k obtain p where p: "image_path s2 = Some p"
    by auto
  from l have "lb \<longrightarrow> body_bbox_list (s1\<lparr>cur_frame := cur_frame s + 1\<rparr>) \<noteq> None"
    by auto
  from bbox_detection_empty_bound [OF bd empty this] obtain bb
    where bb: "body_bbox_list s2 = Some bb"
    by blast
  let ?ev2 = "ev2 @ (if save_bbox_output (e_args env) then [SaveInfoToJson p bb []] else [])
      @ [PrintNoHand p]"
  from process_frame_no_hand [OF bd empty p bb]
  have "loop_body env s = (Continue s2, ev1 @ PrintSeparator # ?ev2)"
    by (rule loop_body_of_load [OF ld rng])
  moreover have "\<forall>e \<in> set ev1. step e = 0" "calls is_Regress ev1 = 0"
    "calls is_Visualize ev1 = 0" "calls is_SaveResImg ev1 = 0"
    using load_data_events [OF ld] by simp_all
  moreover have "\<forall>e \<in> set ev2. step e = 1" "calls is_Regress ev2 = 0"
    "calls is_Visualize ev2 = 0" "calls is_SaveResImg ev2 = 0"
    using bbox_detection_events [OF bd] by simp_all
  moreover have "cur_frame s2 = cur_frame s + 1"
    using k by simp
  ultimately show ?thesis
    using p bb by auto
qed


theorem no_hand_frame_is_skipped_witness:
  "loop_body ex_nohand_env (init_state ex_nohand_env) =
     (Continue (ex_nohand_loaded\<lparr>cur_frame := 1, body_bbox_list := Some [],
                                  hand_bbox_list := Some []\<rparr>),
      [CapRead (Some ex_img), MakeSubdir ''out/frames/00000.jpg'',
       Imwrite ''out/frames/00000.jpg'' ex_img, PrintSeparator, DetectHandBbox ex_img,
       SaveInfoToJson ''out/frames/00000.jpg'' [] [], PrintNoHand ''out/frames/00000.jpg''])"
proof -
  have ld: "load_data ex_nohand_env (init_state ex_nohand_env) =
      (LNext ex_nohand_loaded (Some ex_img) False,
       [CapRead (Some ex_img), MakeSubdir ''out/frames/00000.jpg'',
        Imwrite ''out/frames/00000.jpg'' ex_img])"
    by (simp add: ex_nohand_env_def ex_nohand_loaded_def ex_env_def ex_args_def
        iteration_defs frame_path_out_0)
  have rng: "cur_frame (init_state ex_nohand_env) + 1 \<le> end_frame (e_args ex_nohand_env)"
    by (simp add: ex_nohand_env_def ex_env_def ex_args_def init_state_def)
  have bd: "bbox_detection ex_nohand_env
      (ex_nohand_loaded\<lparr>cur_frame := cur_frame (init_state ex_nohand_env) + 1\<rparr>) ex_img False =
      (Inr (ex_nohand_loaded\<lparr>cur_frame := 1, body_bbox_list := Some [],
                               hand_bbox_list := Some []\<rparr>), [DetectHandBbox ex_img])"
    by (simp add: ex_nohand_env_def ex_nohand_loaded_def ex_env_def ex_args_def
        bbox_detection_def init_state_def)
  have empty: "hand_bbox_list (ex_nohand_loaded\<lparr>cur_frame := 1, body_bbox_list := Some [],
      hand_bbox_list := Some []\<rparr>) = Some []"
    by simp
  have sv: "save_bbox_output (e_args ex_nohand_env)"
    by (simp add: ex_nohand_env_def ex_env_def ex_args_def)
  from no_hand_frame_is_skipped [OF ld rng bd empty] sv show ?thesis
    by (auto simp: ex_nohand_loaded_def)
qed

subsection \<open>The assembled video\<close>

text \<open>
  C7.  \<open>gen_video_out\<close> is called in a run if and only if the loop came to its end (so
  that the lines after it are reached), the input type is \<open>video\<close> or \<open>webcam\<close>, and
  \<open>no_video_out\<close> is false.  The call is made after the loop, with the output directory
  and the sequence name; in a run on an \<open>image_dir\<close> or a \<open>bbox_dir\<close> there is none.
\<close>

theorem video_out_iff_capture_and_enabled:
  assumes "run_hand_mocap env = (res, tr)"
  shows "((\<exists>ph od sq. (ph, GenVideoOut od sq) \<in> set tr)
            \<longleftrightarrow> res = None \<and> input_type env \<in> {''video'', ''webcam''}
                \<and> \<not> no_video_out (e_args env))
         \<and> (\<forall>ph od sq. (ph, GenVideoOut od sq) \<in> set tr
               \<longrightarrow> ph = Teardown \<and> out_dir (e_args env) = Some od
                   \<and> sq = seq_name (e_args env))"
  using assms
proof (cases rule: run_hand_mocap_trace)
  case no_out_dir
  then show ?thesis by simp
next
  case (aborted od e ltr)
  with loop_trace_calls [OF aborted(2)] show ?thesis
    by auto
next
  case (finished od ltr)
  with loop_trace_calls [OF finished(2)] after_loop_calls [of env od] show ?thesis
    by auto
qed

theorem video_out_iff_capture_and_enabled_witness:
  "(\<exists>ph od sq. (ph, GenVideoOut od sq) \<in> set (snd (run_hand_mocap ex_env)))
   \<and> fst (run_hand_mocap ex_env) = None
   \<and> input_type ex_env \<in> {''video'', ''webcam''} \<and> \<not> no_video_out (e_args ex_env)
   \<and> (Teardown, GenVideoOut ''out'' ''seq'') \<in> set (snd (run_hand_mocap ex_env))
   \<and> out_dir (e_args ex_env) = Some ''out'' \<and> seq_name (e_args ex_env) = ''seq''"
proof -
  have h: "run_hand_mocap ex_env = (fst (run_hand_mocap ex_env), snd (run_hand_mocap ex_env))"
    by simp
  note t = video_out_iff_capture_and_enabled [OF h]
  have g: "(Teardown, GenVideoOut ''out'' ''seq'') \<in> set (snd (run_hand_mocap ex_env))"
    using ex_env_run by simp
  then have e: "\<exists>ph od sq. (ph, GenVideoOut od sq) \<in> set (snd (run_hand_mocap ex_env))"
    by (intro exI)
  note c = t [THEN conjunct1, THEN iffD1, OF e]
  note d = t [THEN conjunct2, rule_format, OF g]
  from c d e g show ?thesis
    by simp
qed

subsection \<open>Releasing the capture\<close>

text \<open>
  C3, as the claim states it: a run on a \<open>video\<close> input ends by releasing the capture.
  The example video runs to its end and \<open>release\<close> is never called.
\<close>

theorem video_capture_not_released:
  "input_type ex_env = ''video'' \<and> fst (run_hand_mocap ex_env) = None
   \<and> (\<forall>ph. (ph, Release) \<notin> set (snd (run_hand_mocap ex_env)))"
  using ex_env_run by (simp add: ex_env_def)

text \<open>
  C3, amended.  \<open>release\<close> is called in a run if and only if the loop came to its end
  and the input type is \<open>webcam\<close>; the call is made after the loop.  Such a run has a
  capture as its input data, and its last two calls are \<open>release\<close> and
  \<open>cv2.destroyAllWindows\<close>.  Every run whose loop came to its end, whatever its input
  type, ends with \<open>cv2.destroyAllWindows\<close>.
\<close>

theorem release_iff_webcam:
  assumes "run_hand_mocap env = (res, tr)"
  shows "((\<exists>ph. (ph, Release) \<in> set tr) \<longleftrightarrow> res = None \<and> input_type env = ''webcam'')
         \<and> (\<forall>ph. (ph, Release) \<in> set tr \<longrightarrow> ph = Teardown)
         \<and> (res = None \<longrightarrow> last tr = (Teardown, DestroyAllWindows))
         \<and> (res = None \<and> input_type env = ''webcam'' \<longrightarrow>
               is_not_None (e_input_data env)
               \<and> (\<exists>tr'. tr = tr' @ [(Teardown, Release), (Teardown, DestroyAllWindows)]))"
  using assms
proof (cases rule: run_hand_mocap_trace)
  case no_out_dir
  then show ?thesis by simp
next
  case (aborted od e ltr)
  with loop_trace_calls [OF aborted(2)] show ?thesis
    by auto
next
  case (finished od ltr)
  have w: "input_type env = ''webcam'' \<Longrightarrow> is_not_None (e_input_data env)"
    using webcam_needs_capture finished(2) by blast
  have l: "last tr = (Teardown, DestroyAllWindows)"
    unfolding finished(4) by (simp add: after_loop_def)
  have t: "input_type env = ''webcam'' \<Longrightarrow>
      \<exists>tr'. tr = tr' @ [(Teardown, Release), (Teardown, DestroyAllWindows)]"
  proof -
    assume a: "input_type env = ''webcam''"
    with w have "after_loop env od =
        (if \<not> no_video_out (e_args env) then [GenVideoOut od (seq_name (e_args env))] else [])
        @ [Release, DestroyAllWindows]"
      by (simp add: after_loop_def)
    then have "tr = ((Setup, CreateWindow) # ltr
        @ map (Pair Teardown)
            (if \<not> no_video_out (e_args env) then [GenVideoOut od (seq_name (e_args env))]
             else []))
        @ [(Teardown, Release), (Teardown, DestroyAllWindows)]"
      unfolding finished(4) by simp
    then show ?thesis by blast
  qed
  from finished loop_trace_calls [OF finished(2)] after_loop_calls [of env od] w l t
  show ?thesis
    by auto
qed

theorem release_iff_webcam_witness:
  "(\<exists>ph. (ph, Release) \<in> set (snd (run_hand_mocap ex_webcam_env)))
   \<and> fst (run_hand_mocap ex_webcam_env) = None \<and> input_type ex_webcam_env = ''webcam''
   \<and> (Teardown, Release) \<in> set (snd (run_hand_mocap ex_webcam_env))
   \<and> last (snd (run_hand_mocap ex_webcam_env)) = (Teardown, DestroyAllWindows)
   \<and> is_not_None (e_input_data ex_webcam_env)
   \<and> (\<exists>tr'. snd (run_hand_mocap ex_webcam_env) =
         tr' @ [(Teardown, Release), (Teardown, DestroyAllWindows)])"
proof -
  have h: "run_hand_mocap ex_webcam_env =
      (fst (run_hand_mocap ex_webcam_env), snd (run_hand_mocap ex_webcam_env))"
    by simp
  note t = release_iff_webcam [OF h]
  have g: "(Teardown, Release) \<in> set (snd (run_hand_mocap ex_webcam_env))"
    using ex_webcam_env_run by simp
  then have e: "\<exists>ph. (ph, Release) \<in> set (snd (run_hand_mocap ex_webcam_env))"
    by (intro exI)
  note c = t [THEN conjunct1, THEN iffD1, OF e]
  note l = t [THEN conjunct2, THEN conjunct2, THEN conjunct1, rule_format, OF c [THEN conjunct1]]
  note d = t [THEN conjunct2, THEN conjunct2, THEN conjunct2, rule_format, OF c]
  from c l d e g show ?thesis
    by simp
qed

subsection \<open>The result image\<close>

lemma loop_body_later_step:
  assumes "loop_body env s = (oc, ev)" and "e \<in> set ev" and "1 \<le> step e"
  shows "PrintSeparator \<in> set ev"
proof -
  obtain r ev1 where ld: "load_data env s = (r, ev1)"
    by (cases "load_data env s")
  from load_data_events [OF ld] have n: "\<forall>e \<in> set ev1. step e = 0"
    by simp
  show ?thesis
  proof (cases "\<exists>s1 img lb. r = LNext s1 (Some img) lb
      \<and> \<not> cur_frame s1 + 1 > end_frame (e_args env)")
    case False
    with assms ld have "ev = ev1"
      by (auto simp: loop_body_def Let_def split: load_result.splits option.splits if_splits)
    with n assms show ?thesis by auto
  next
    case True
    then obtain s1 img lb where r: "r = LNext s1 (Some img) lb"
      "\<not> cur_frame s1 + 1 > end_frame (e_args env)"
      by blast
    obtain oc2 ev2 where
      p: "process_frame env (s1\<lparr>cur_frame := cur_frame s1 + 1\<rparr>) img lb = (oc2, ev2)"
      by (cases "process_frame env (s1\<lparr>cur_frame := cur_frame s1 + 1\<rparr>) img lb")
    from assms ld r p have "ev = ev1 @ PrintSeparator # ev2"
      by (simp add: loop_body_def Let_def)
    then show ?thesis by simp
  qed
qed

lemma regress_frame_saves:
  assumes "regress_frame env s img hb = (oc, ev)" and "Visualize i ms h \<in> set ev"
    and "image_path s = Some p" and "out_dir (e_args env) = Some od"
  shows "\<exists>r. SaveResImg od p r \<in> set ev"
  using assms
  by (auto simp: regress_frame_def Let_def update_renderer_def render_and_save_def
      split: option.splits if_splits sum.splits)

lemma process_frame_saves:
  assumes "process_frame env s img lb = (oc, ev)" and "Visualize i ms h \<in> set ev"
    and "image_path s = Some p" and "out_dir (e_args env) = Some od"
  shows "\<exists>r. SaveResImg od p r \<in> set ev"
proof -
  obtain r1 ev1 where b: "bbox_detection env s img lb = (r1, ev1)"
    by (cases "bbox_detection env s img lb")
  from bbox_detection_events [OF b] have n1: "Visualize i ms h \<notin> set ev1"
    by fastforce
  show ?thesis
  proof (cases r1)
    case (Inl e)
    with assms b have "ev = ev1" by (simp add: process_frame_def)
    with n1 assms show ?thesis by simp
  next
    case (Inr s1)
    obtain r2 ev2 where j: "save_bbox_json env s1 = (r2, ev2)"
      by (cases "save_bbox_json env s1")
    from save_bbox_json_events [OF j] have n2: "Visualize i ms h \<notin> set ev2"
      by fastforce
    from bbox_detection_keeps b Inr assms(3) have ip: "image_path s1 = Some p"
      by metis
    show ?thesis
    proof (cases "\<exists>hb. r2 = Inr () \<and> hand_bbox_list s1 = Some hb \<and> \<not> length hb < 1")
      case False
      with assms b j Inr have "ev = ev1 @ ev2 \<or> (\<exists>p. ev = ev1 @ ev2 @ [PrintNoHand p])"
        by (auto simp: process_frame_def split: sum.splits option.splits if_splits)
      with n1 n2 assms(2) show ?thesis by auto
    next
      case True
      then obtain hb where h: "r2 = Inr ()" "hand_bbox_list s1 = Some hb" "\<not> length hb < 1"
        by blast
      obtain oc3 ev3 where g: "regress_frame env s1 img hb = (oc3, ev3)"
        by (cases "regress_frame env s1 img hb")
      from assms b j Inr h g have ev: "ev = (ev1 @ ev2) @ ev3"
        by (simp add: process_frame_def)
      with n1 n2 assms(2) have "Visualize i ms h \<in> set ev3" by simp
      from regress_frame_saves [OF g this ip assms(4)] ev show ?thesis
        by auto
    qed
  qed
qed

lemma loop_body_saves:
  assumes lb: "loop_body env s = (oc, ev)" and v: "Visualize i ms h \<in> set ev"
    and od: "out_dir (e_args env) = Some od"
  shows "\<exists>p r. SaveResImg od p r \<in> set ev"
proof -
  have "PrintSeparator \<in> set ev"
    using loop_body_later_step [OF lb v] by simp
  from loop_body_processed [OF lb this] obtain s1 img lb' ev1 ev2 where
    ld: "load_data env s = (LNext s1 (Some img) lb', ev1)"
    and p: "process_frame env (s1\<lparr>cur_frame := cur_frame s + 1\<rparr>) img lb' = (oc, ev2)"
    and ev: "ev = ev1 @ PrintSeparator # ev2"
    by blast
  from load_data_LNext [OF ld] obtain pth where
    ip: "image_path (s1\<lparr>cur_frame := cur_frame s + 1\<rparr>) = Some pth"
    by auto
  from load_data_events [OF ld] have "Visualize i ms h \<notin> set ev1"
    by fastforce
  with v ev have "Visualize i ms h \<in> set ev2" by simp
  from process_frame_saves [OF p this ip od] ev show ?thesis
    by auto
qed

lemma run_loop_saves:
  assumes od: "out_dir (e_args env) = Some od"
  shows "(ph, Visualize i ms h) \<in> set (snd (run_loop env s))
         \<longrightarrow> (\<exists>p r. (ph, SaveResImg od p r) \<in> set (snd (run_loop env s)))"
proof (induction s rule: run_loop_induct [where env = env])
  case (Continue s s' ev)
  from loop_body_saves [OF Continue(1) _ od] Continue(2) show ?case
    unfolding run_loop_Continue [OF Continue(1)] by fastforce
next
  case (Break s s' ev)
  from loop_body_saves [OF Break(1) _ od] show ?case
    unfolding run_loop_Break [OF Break(1)] by fastforce
next
  case (Crash s e ev)
  from loop_body_saves [OF Crash(1) _ od] show ?case
    unfolding run_loop_Crash [OF Crash(1)] by fastforce
qed

lemma run_hand_mocap_saves:
  assumes "run_hand_mocap env = (res, tr)" and "(ph, Visualize i ms h) \<in> set tr"
  shows "\<exists>od p r. out_dir (e_args env) = Some od \<and> (ph, SaveResImg od p r) \<in> set tr"
  using assms(1)
proof (cases rule: run_hand_mocap_trace)
  case no_out_dir
  with assms(2) show ?thesis by simp
next
  case (aborted od e ltr)
  with run_loop_saves [OF aborted(1), of ph i ms h "init_state env"] assms(2)
  show ?thesis by auto
next
  case (finished od ltr)
  from finished(4) assms(2) have "(ph, Visualize i ms h) \<in> set ltr"
    by (auto simp: after_loop_def)
  with finished run_loop_saves [OF finished(1), of ph i ms h "init_state env"]
  show ?thesis by auto
qed

lemma ex_env_run_visualize:
  "(Frame 0, Visualize ex_img [7] [[(''left_hand'', [0, 0, 1, 1])]])
     \<in> set (snd (run_hand_mocap ex_env))"
  by (simp add: run_hand_mocap_def run_loop.simps ex_env_def ex_args_def ex_pred_def ex_img_def
      iteration_defs frame_path_out_0 frame_path_out_1 frame_path_out_2 after_loop_def)

text \<open>
  C4, as the claim states it: some configuration processes a frame (the visualization
  runs) and writes no result image.  There is none: in no run is \<open>visualize\<close> called
  for a frame without \<open>save_res_img\<close> being called for it.
\<close>

theorem no_run_visualizes_without_saving:
  "\<not> (\<exists>env ph i ms h.
         (ph, Visualize i ms h) \<in> set (snd (run_hand_mocap env))
         \<and> (\<forall>od p r. (ph, SaveResImg od p r) \<notin> set (snd (run_hand_mocap env))))"
proof
  assume "\<exists>env ph i ms h.
         (ph, Visualize i ms h) \<in> set (snd (run_hand_mocap env))
         \<and> (\<forall>od p r. (ph, SaveResImg od p r) \<notin> set (snd (run_hand_mocap env)))"
  then obtain env ph i ms h where v: "(ph, Visualize i ms h) \<in> set (snd (run_hand_mocap env))"
    and n: "\<forall>od p r. (ph, SaveResImg od p r) \<notin> set (snd (run_hand_mocap env))"
    by blast
  have "run_hand_mocap env = (fst (run_hand_mocap env), snd (run_hand_mocap env))"
    by simp
  from run_hand_mocap_saves [OF this v] n show False
    by blast
qed

text \<open>
  C4, amended.  Saving the result image is not optional: in every run, a frame for
  which \<open>visualize\<close> is called has the output directory set and \<open>save_res_img\<close> called
  for it in the same iteration.  The test of line 201 is always true inside the loop,
  because line 80 asserts the output directory before the loop.
\<close>

theorem result_image_always_saved:
  assumes "run_hand_mocap env = (res, tr)" and "(ph, Visualize i ms h) \<in> set tr"
  shows "\<exists>od p r. out_dir (e_args env) = Some od \<and> (ph, SaveResImg od p r) \<in> set tr"
  using assms by (rule run_hand_mocap_saves)

theorem result_image_always_saved_witness:
  "(Frame 0, Visualize ex_img [7] [[(''left_hand'', [0, 0, 1, 1])]])
     \<in> set (snd (run_hand_mocap ex_env))
   \<and> (\<exists>od p r. out_dir (e_args ex_env) = Some od
         \<and> (Frame 0, SaveResImg od p r) \<in> set (snd (run_hand_mocap ex_env)))"
proof -
  have h: "run_hand_mocap ex_env = (fst (run_hand_mocap ex_env), snd (run_hand_mocap ex_env))"
    by simp
  from result_image_always_saved [OF h ex_env_run_visualize] ex_env_run_visualize
  show ?thesis
    by (intro conjI)
qed

subsection \<open>Cropped hands and the body boxes\<close>

lemma process_frame_hand_crop_unbound:
  assumes "crop_type (e_args env) = ''hand_crop''" and "body_bbox_list s = None"
    and "image_path s = Some p"
  shows "process_frame env s img False =
           (Crash (UnboundLocalError ''body_bbox_list''),
            if save_bbox_output (e_args env) then []
            else [Regress img [[(''right_hand'', [0, 0, int (img_w img), int (img_h img)])]]])"
  using assms
  by (simp add: process_frame_def bbox_detection_def save_bbox_json_def regress_frame_def Let_def)

lemma loop_body_hand_crop_shape:
  assumes hc: "crop_type (e_args env) = ''hand_crop''" and nb: "input_type env \<noteq> ''bbox_dir''"
    and lb: "loop_body env s = (oc, ev)" and ps: "PrintSeparator \<in> set ev"
    and ub: "body_bbox_list s = None"
  shows "oc = Crash (UnboundLocalError ''body_bbox_list'')
         \<and> (\<exists>pre img. (\<forall>e \<in> set pre. step e = 0)
               \<and> ev = pre @ PrintSeparator #
                   (if save_bbox_output (e_args env) then []
                    else [Regress img
                            [[(''right_hand'', [0, 0, int (img_w img), int (img_h img)])]]]))"
proof -
  from loop_body_processed [OF lb ps] obtain s1 img lb' ev1 ev2 where
    ld: "load_data env s = (LNext s1 (Some img) lb', ev1)"
    and p: "process_frame env (s1\<lparr>cur_frame := cur_frame s + 1\<rparr>) img lb' = (oc, ev2)"
    and ev: "ev = ev1 @ PrintSeparator # ev2"
    by blast
  from load_data_LNext [OF ld] nb ub obtain pth where
    l: "\<not> lb'" "image_path (s1\<lparr>cur_frame := cur_frame s + 1\<rparr>) = Some pth"
    "body_bbox_list (s1\<lparr>cur_frame := cur_frame s + 1\<rparr>) = None"
    by auto
  from load_data_events [OF ld] have r1: "\<forall>e \<in> set ev1. step e = 0" by simp
  from process_frame_hand_crop_unbound [OF hc l(3) l(2), of img] p l(1)
  have "oc = Crash (UnboundLocalError ''body_bbox_list'')"
    and "ev2 = (if save_bbox_output (e_args env) then []
                else [Regress img
                        [[(''right_hand'', [0, 0, int (img_w img), int (img_h img)])]]])"
    by simp_all
  with r1 ev show ?thesis by blast
qed

lemma loop_body_hand_crop_unbound:
  assumes hc: "crop_type (e_args env) = ''hand_crop''" and nb: "input_type env \<noteq> ''bbox_dir''"
    and lb: "loop_body env s = (oc, ev)" and ps: "PrintSeparator \<in> set ev"
    and ub: "body_bbox_list s = None"
  shows "oc = Crash (UnboundLocalError ''body_bbox_list'')
         \<and> (if save_bbox_output (e_args env) then calls is_Regress ev = 0
             else \<exists>img. last ev =
                    Regress img [[(''right_hand'', [0, 0, int (img_w img), int (img_h img)])]])"
proof -
  from loop_body_hand_crop_shape [OF hc nb lb ps ub] obtain pre img where
    oc: "oc = Crash (UnboundLocalError ''body_bbox_list'')"
    and pre: "\<forall>e \<in> set pre. step e = 0"
    and ev: "ev = pre @ PrintSeparator #
        (if save_bbox_output (e_args env) then []
         else [Regress img [[(''right_hand'', [0, 0, int (img_w img), int (img_h img)])]]])"
    by blast
  have "\<not> is_Regress e" if "step e = 0" for e
    using that by (cases e) simp_all
  with pre have "\<forall>e \<in> set pre. \<not> is_Regress e"
    by blast
  then have "calls is_Regress pre = 0"
    by (simp add: calls_def)
  with oc ev show ?thesis
    by auto
qed

lemma loop_body_hand_crop_quiet:
  assumes hc: "crop_type (e_args env) = ''hand_crop''" and nb: "input_type env \<noteq> ''bbox_dir''"
    and lb: "loop_body env s = (oc, ev)" and ub: "body_bbox_list s = None"
  shows "(\<forall>p bb hb. SaveInfoToJson p bb hb \<notin> set ev)
         \<and> (\<forall>p bb hb po. SavePredToPkl p bb hb po \<notin> set ev)
         \<and> (\<forall>s'. oc = Continue s' \<longrightarrow> PrintSeparator \<notin> set ev \<and> body_bbox_list s' = None)"
proof (cases "PrintSeparator \<in> set ev")
  case True
  from loop_body_hand_crop_shape [OF hc nb lb True ub] show ?thesis
    by (fastforce split: if_splits)
next
  case False
  obtain r ev1 where ld: "load_data env s = (r, ev1)"
    by (cases "load_data env s")
  from lb ld False have "ev = ev1"
    by (auto simp: loop_body_def Let_def split: load_result.splits option.splits if_splits
        prod.splits)
  with load_data_events [OF ld] have z: "\<forall>e \<in> set ev. step e = 0"
    by simp
  have k: "\<forall>s'. oc = Continue s' \<longrightarrow> body_bbox_list s' = None"
  proof (intro allI impI)
    fix s'
    assume "oc = Continue s'"
    with lb have "loop_body env s = (Continue s', ev)" by simp
    from loop_body_skip [OF this False] ub show "body_bbox_list s' = None"
      by simp
  qed
  from z k False show ?thesis
    by fastforce
qed

lemma iterates_hand_crop_unbound:
  assumes hc: "crop_type (e_args env) = ''hand_crop''" and nb: "input_type env \<noteq> ''bbox_dir''"
    and it: "iterates env s s'" and ub: "body_bbox_list s = None"
  shows "body_bbox_list s' = None"
  using it ub
proof (induction rule: iterates.induct)
  case (iterates_here s)
  then show ?case by simp
next
  case (iterates_next s s1 ev s')
  from loop_body_hand_crop_quiet [OF hc nb iterates_next(1) iterates_next(4)]
  have "body_bbox_list s1 = None"
    by simp
  with iterates_next show ?case
    by simp
qed

lemma run_loop_hand_crop:
  assumes hc: "crop_type (e_args env) = ''hand_crop''" and nb: "input_type env \<noteq> ''bbox_dir''"
  shows "body_bbox_list s = None \<longrightarrow>
           (\<forall>ph p bb hb. (ph, SaveInfoToJson p bb hb) \<notin> set (snd (run_loop env s)))
           \<and> (\<forall>ph p bb hb po. (ph, SavePredToPkl p bb hb po) \<notin> set (snd (run_loop env s)))
           \<and> (\<forall>f. (Frame f, PrintSeparator) \<in> set (snd (run_loop env s)) \<longrightarrow>
                fst (run_loop env s) = Some (UnboundLocalError ''body_bbox_list'')
                \<and> (\<exists>pre img. (\<forall>g. (Frame g, PrintSeparator) \<notin> set pre)
                      \<and> snd (run_loop env s) = pre @ (Frame f, PrintSeparator) #
                          (if save_bbox_output (e_args env) then []
                           else [(Frame f,
                                  Regress img
                                    [[(''right_hand'',
                                       [0, 0, int (img_w img), int (img_h img)])]])])))"
    (is "_ \<longrightarrow> ?Q s")
proof (induction s rule: run_loop_induct [where env = env])
  case (Continue s s' ev)
  show ?case
  proof
    assume ub: "body_bbox_list s = None"
    note q = loop_body_hand_crop_quiet [OF hc nb Continue(1) ub]
    from q have n: "PrintSeparator \<notin> set ev" and ub': "body_bbox_list s' = None"
      by simp_all
    from Continue(2) ub' have ih: "?Q s'" by simp
    have tr: "snd (run_loop env s) = map (Pair (Frame (cur_frame s))) ev @ snd (run_loop env s')"
      and r: "fst (run_loop env s) = fst (run_loop env s')"
      unfolding run_loop_Continue [OF Continue(1)] by simp_all
    have a: "\<forall>ph p bb hb. (ph, SaveInfoToJson p bb hb) \<notin> set (snd (run_loop env s))"
      using q ih unfolding tr by auto
    have b: "\<forall>ph p bb hb po. (ph, SavePredToPkl p bb hb po) \<notin> set (snd (run_loop env s))"
      using q ih unfolding tr by auto
    have c: "\<forall>f. (Frame f, PrintSeparator) \<in> set (snd (run_loop env s)) \<longrightarrow>
        fst (run_loop env s) = Some (UnboundLocalError ''body_bbox_list'')
        \<and> (\<exists>pre img. (\<forall>g. (Frame g, PrintSeparator) \<notin> set pre)
              \<and> snd (run_loop env s) = pre @ (Frame f, PrintSeparator) #
                  (if save_bbox_output (e_args env) then []
                   else [(Frame f,
                          Regress img
                            [[(''right_hand'', [0, 0, int (img_w img), int (img_h img)])]])]))"
    proof (intro allI impI)
      fix f
      assume "(Frame f, PrintSeparator) \<in> set (snd (run_loop env s))"
      with n have m: "(Frame f, PrintSeparator) \<in> set (snd (run_loop env s'))"
        unfolding tr by auto
      with ih obtain pre img where
        e: "fst (run_loop env s') = Some (UnboundLocalError ''body_bbox_list'')"
        and p: "\<forall>g. (Frame g, PrintSeparator) \<notin> set pre"
        and t: "snd (run_loop env s') = pre @ (Frame f, PrintSeparator) #
            (if save_bbox_output (e_args env) then []
             else [(Frame f,
                    Regress img
                      [[(''right_hand'', [0, 0, int (img_w img), int (img_h img)])]])])"
        by blast
      from n p have p': "\<forall>g. (Frame g, PrintSeparator)
          \<notin> set (map (Pair (Frame (cur_frame s))) ev @ pre)"
        by auto
      from t have "snd (run_loop env s) =
          (map (Pair (Frame (cur_frame s))) ev @ pre) @ (Frame f, PrintSeparator) #
            (if save_bbox_output (e_args env) then []
             else [(Frame f,
                    Regress img
                      [[(''right_hand'', [0, 0, int (img_w img), int (img_h img)])]])])"
        unfolding tr by simp
      with p' have y: "\<exists>pre img. (\<forall>g. (Frame g, PrintSeparator) \<notin> set pre)
              \<and> snd (run_loop env s) = pre @ (Frame f, PrintSeparator) #
                  (if save_bbox_output (e_args env) then []
                   else [(Frame f,
                          Regress img
                            [[(''right_hand'', [0, 0, int (img_w img), int (img_h img)])]])])"
        by (intro exI conjI)
      from e r have x: "fst (run_loop env s) = Some (UnboundLocalError ''body_bbox_list'')"
        by simp
      from x y show "fst (run_loop env s) = Some (UnboundLocalError ''body_bbox_list'')
        \<and> (\<exists>pre img. (\<forall>g. (Frame g, PrintSeparator) \<notin> set pre)
              \<and> snd (run_loop env s) = pre @ (Frame f, PrintSeparator) #
                  (if save_bbox_output (e_args env) then []
                   else [(Frame f,
                          Regress img
                            [[(''right_hand'', [0, 0, int (img_w img), int (img_h img)])]])]))"
        by (rule conjI)
    qed
    from a b c show "?Q s" by blast
  qed
next
  case (Break s s' ev)
  show ?case
  proof
    assume ub: "body_bbox_list s = None"
    note q = loop_body_hand_crop_quiet [OF hc nb Break(1) ub]
    have n: "PrintSeparator \<notin> set ev"
      using loop_body_hand_crop_shape [OF hc nb Break(1) _ ub] by auto
    from q n show "?Q s"
      unfolding run_loop_Break [OF Break(1)] by auto
  qed
next
  case (Crash s e ev)
  show ?case
  proof
    assume ub: "body_bbox_list s = None"
    note q = loop_body_hand_crop_quiet [OF hc nb Crash(1) ub]
    have tr: "snd (run_loop env s) = map (Pair (Frame (cur_frame s))) ev"
      and r: "fst (run_loop env s) = Some e"
      unfolding run_loop_Crash [OF Crash(1)] by simp_all
    have c: "\<forall>f. (Frame f, PrintSeparator) \<in> set (snd (run_loop env s)) \<longrightarrow>
        fst (run_loop env s) = Some (UnboundLocalError ''body_bbox_list'')
        \<and> (\<exists>pre img. (\<forall>g. (Frame g, PrintSeparator) \<notin> set pre)
              \<and> snd (run_loop env s) = pre @ (Frame f, PrintSeparator) #
                  (if save_bbox_output (e_args env) then []
                   else [(Frame f,
                          Regress img
                            [[(''right_hand'', [0, 0, int (img_w img), int (img_h img)])]])]))"
    proof (intro allI impI)
      fix f
      assume "(Frame f, PrintSeparator) \<in> set (snd (run_loop env s))"
      then have f: "f = cur_frame s" and ps: "PrintSeparator \<in> set ev"
        unfolding tr by auto
      from loop_body_hand_crop_shape [OF hc nb Crash(1) ps ub] obtain pre img where
        e: "e = UnboundLocalError ''body_bbox_list''"
        and p: "\<forall>x \<in> set pre. step x = 0"
        and t: "ev = pre @ PrintSeparator #
            (if save_bbox_output (e_args env) then []
             else [Regress img [[(''right_hand'', [0, 0, int (img_w img), int (img_h img)])]]])"
        by blast
      from p have p': "\<forall>g. (Frame g, PrintSeparator) \<notin> set (map (Pair (Frame f)) pre)"
        by auto
      from t f have "snd (run_loop env s) =
          map (Pair (Frame f)) pre @ (Frame f, PrintSeparator) #
            (if save_bbox_output (e_args env) then []
             else [(Frame f,
                    Regress img
                      [[(''right_hand'', [0, 0, int (img_w img), int (img_h img)])]])])"
        unfolding tr by simp
      with p' have y: "\<exists>pre img. (\<forall>g. (Frame g, PrintSeparator) \<notin> set pre)
              \<and> snd (run_loop env s) = pre @ (Frame f, PrintSeparator) #
                  (if save_bbox_output (e_args env) then []
                   else [(Frame f,
                          Regress img
                            [[(''right_hand'', [0, 0, int (img_w img), int (img_h img)])]])])"
        by (intro exI conjI)
      from e r have x: "fst (run_loop env s) = Some (UnboundLocalError ''body_bbox_list'')"
        by simp
      from x y show "fst (run_loop env s) = Some (UnboundLocalError ''body_bbox_list'')
        \<and> (\<exists>pre img. (\<forall>g. (Frame g, PrintSeparator) \<notin> set pre)
              \<and> snd (run_loop env s) = pre @ (Frame f, PrintSeparator) #
                  (if save_bbox_output (e_args env) then []
                   else [(Frame f,
                          Regress img
                            [[(''right_hand'', [0, 0, int (img_w img), int (img_h img)])]])]))"
        by (rule conjI)
    qed
    from q c show "?Q s"
      unfolding tr by auto
  qed
qed

lemma run_hand_mocap_hand_crop:
  assumes hc: "crop_type (e_args env) = ''hand_crop''" and nb: "input_type env \<noteq> ''bbox_dir''"
    and run: "run_hand_mocap env = (res, tr)"
  shows "(\<forall>ph p bb hb. (ph, SaveInfoToJson p bb hb) \<notin> set tr)
         \<and> (\<forall>ph p bb hb po. (ph, SavePredToPkl p bb hb po) \<notin> set tr)
         \<and> (\<forall>f. (Frame f, PrintSeparator) \<in> set tr \<longrightarrow>
              res = Some (UnboundLocalError ''body_bbox_list'')
              \<and> (\<exists>pre img. (\<forall>g. (Frame g, PrintSeparator) \<notin> set pre)
                    \<and> tr = pre @ (Frame f, PrintSeparator) #
                        (if save_bbox_output (e_args env) then []
                         else [(Frame f,
                                Regress img
                                  [[(''right_hand'',
                                     [0, 0, int (img_w img), int (img_h img)])]])])))"
proof -
  have ub: "body_bbox_list (init_state env) = None"
    by (simp add: init_state_def)
  note l = run_loop_hand_crop [OF hc nb, of "init_state env", THEN mp, OF ub]
  from run show ?thesis
  proof (cases rule: run_hand_mocap_trace)
    case no_out_dir
    then show ?thesis by simp
  next
    case (aborted od e ltr)
    from l aborted(2) have
      a: "\<forall>ph p bb hb. (ph, SaveInfoToJson p bb hb) \<notin> set ltr"
      and b: "\<forall>ph p bb hb po. (ph, SavePredToPkl p bb hb po) \<notin> set ltr"
      and c: "\<forall>f. (Frame f, PrintSeparator) \<in> set ltr \<longrightarrow>
          e = UnboundLocalError ''body_bbox_list''
          \<and> (\<exists>pre img. (\<forall>g. (Frame g, PrintSeparator) \<notin> set pre)
                \<and> ltr = pre @ (Frame f, PrintSeparator) #
                    (if save_bbox_output (e_args env) then []
                     else [(Frame f,
                            Regress img
                              [[(''right_hand'', [0, 0, int (img_w img), int (img_h img)])]])]))"
      by simp_all
    have d: "\<forall>f. (Frame f, PrintSeparator) \<in> set tr \<longrightarrow>
        res = Some (UnboundLocalError ''body_bbox_list'')
        \<and> (\<exists>pre img. (\<forall>g. (Frame g, PrintSeparator) \<notin> set pre)
              \<and> tr = pre @ (Frame f, PrintSeparator) #
                  (if save_bbox_output (e_args env) then []
                   else [(Frame f,
                          Regress img
                            [[(''right_hand'', [0, 0, int (img_w img), int (img_h img)])]])]))"
    proof (intro allI impI)
      fix f
      assume "(Frame f, PrintSeparator) \<in> set tr"
      with aborted(4) have "(Frame f, PrintSeparator) \<in> set ltr" by simp
      with c obtain pre img where
        e: "e = UnboundLocalError ''body_bbox_list''"
        and p: "\<forall>g. (Frame g, PrintSeparator) \<notin> set pre"
        and t: "ltr = pre @ (Frame f, PrintSeparator) #
            (if save_bbox_output (e_args env) then []
             else [(Frame f,
                    Regress img
                      [[(''right_hand'', [0, 0, int (img_w img), int (img_h img)])]])])"
        by blast
      from p have p': "\<forall>g. (Frame g, PrintSeparator) \<notin> set ((Setup, CreateWindow) # pre)"
        by simp
      from t aborted(4) have "tr = ((Setup, CreateWindow) # pre) @ (Frame f, PrintSeparator) #
            (if save_bbox_output (e_args env) then []
             else [(Frame f,
                    Regress img
                      [[(''right_hand'', [0, 0, int (img_w img), int (img_h img)])]])])"
        by simp
      with p' have y: "\<exists>pre img. (\<forall>g. (Frame g, PrintSeparator) \<notin> set pre)
              \<and> tr = pre @ (Frame f, PrintSeparator) #
                  (if save_bbox_output (e_args env) then []
                   else [(Frame f,
                          Regress img
                            [[(''right_hand'', [0, 0, int (img_w img), int (img_h img)])]])])"
        by (intro exI conjI)
      from e aborted(3) have x: "res = Some (UnboundLocalError ''body_bbox_list'')"
        by simp
      from x y
      show "res = Some (UnboundLocalError ''body_bbox_list'')
        \<and> (\<exists>pre img. (\<forall>g. (Frame g, PrintSeparator) \<notin> set pre)
              \<and> tr = pre @ (Frame f, PrintSeparator) #
                  (if save_bbox_output (e_args env) then []
                   else [(Frame f,
                          Regress img
                            [[(''right_hand'', [0, 0, int (img_w img), int (img_h img)])]])]))"
        by (rule conjI)
    qed
    from a b d aborted(4) show ?thesis
      by simp
  next
    case (finished od ltr)
    from l finished(2) have
      a: "\<forall>ph p bb hb. (ph, SaveInfoToJson p bb hb) \<notin> set ltr"
      and b: "\<forall>ph p bb hb po. (ph, SavePredToPkl p bb hb po) \<notin> set ltr"
      and c: "\<forall>f. (Frame f, PrintSeparator) \<notin> set ltr"
      by auto
    from a b c finished(4) show ?thesis
      by (auto simp: after_loop_def)
  qed
qed

lemma ex_crop_env_run:
  "run_hand_mocap ex_crop_env =
     (Some (UnboundLocalError ''body_bbox_list''),
      [(Setup, CreateWindow), (Frame 0, CapRead (Some ex_img)),
       (Frame 0, MakeSubdir ''out/frames/00000.jpg''),
       (Frame 0, Imwrite ''out/frames/00000.jpg'' ex_img), (Frame 0, PrintSeparator)])"
  by (simp add: run_hand_mocap_def run_loop.simps ex_crop_env_def ex_env_def ex_args_def
      ex_img_def iteration_defs frame_path_out_0)

lemma ex_crop_quiet_env_run:
  "run_hand_mocap ex_crop_quiet_env =
     (Some (UnboundLocalError ''body_bbox_list''),
      [(Setup, CreateWindow), (Frame 0, CapRead (Some ex_img)),
       (Frame 0, MakeSubdir ''out/frames/00000.jpg''),
       (Frame 0, Imwrite ''out/frames/00000.jpg'' ex_img), (Frame 0, PrintSeparator),
       (Frame 0, Regress ex_img [[(''right_hand'', [0, 0, 6, 4])]])])"
  by (simp add: run_hand_mocap_def run_loop.simps ex_crop_quiet_env_def ex_env_def ex_args_def
      ex_img_def iteration_defs frame_path_out_0)

lemma ex_crop_env_first_iteration:
  "snd (loop_body ex_crop_env (init_state ex_crop_env)) =
     [CapRead (Some ex_img), MakeSubdir ''out/frames/00000.jpg'',
      Imwrite ''out/frames/00000.jpg'' ex_img, PrintSeparator]"
  by (simp add: ex_crop_env_def ex_env_def ex_args_def iteration_defs frame_path_out_0)

lemma ex_crop_late_env_first_iteration:
  "loop_body ex_crop_late_env (init_state ex_crop_late_env) =
     (Continue ((init_state ex_crop_late_env)\<lparr>cap_pos := 1, video_frame := 1\<rparr>),
      [CapRead (Some ex_img)])"
  by (simp add: ex_crop_late_env_def ex_env_def ex_args_def iteration_defs)

lemma ex_crop_late_env_second_iteration:
  "loop_body ex_crop_late_env ((init_state ex_crop_late_env)\<lparr>cap_pos := 1, video_frame := 1\<rparr>) =
     (Crash (UnboundLocalError ''body_bbox_list''),
      [CapRead (Some ex_img), MakeSubdir ''out/frames/00001.jpg'',
       Imwrite ''out/frames/00001.jpg'' ex_img, PrintSeparator])"
  by (simp add: ex_crop_late_env_def ex_env_def ex_args_def iteration_defs frame_path_out_1)

text \<open>
  C8, as the claim states it: on the frames after the first processed one the list left by
  the previous frame is reused.  The two-frame video with \<open>crop_type = hand_crop\<close> has a
  second frame within the frame range, and the run never gets to it: the first processed
  frame ends the run with \<open>UnboundLocalError\<close>, at the JSON save when \<open>save_bbox_output\<close>
  is set and after the regression otherwise.  These are the whole traces of the two runs.
\<close>

theorem hand_crop_run_stops_at_first_frame:
  "crop_type (e_args ex_crop_env) = ''hand_crop'' \<and> input_type ex_crop_env = ''video''
   \<and> save_bbox_output (e_args ex_crop_env)
   \<and> frame_at ex_crop_env 1 = Some ex_img \<and> 1 < end_frame (e_args ex_crop_env)
   \<and> run_hand_mocap ex_crop_env =
       (Some (UnboundLocalError ''body_bbox_list''),
        [(Setup, CreateWindow), (Frame 0, CapRead (Some ex_img)),
         (Frame 0, MakeSubdir ''out/frames/00000.jpg''),
         (Frame 0, Imwrite ''out/frames/00000.jpg'' ex_img), (Frame 0, PrintSeparator)])
   \<and> crop_type (e_args ex_crop_quiet_env) = ''hand_crop''
   \<and> input_type ex_crop_quiet_env = ''video''
   \<and> \<not> save_bbox_output (e_args ex_crop_quiet_env)
   \<and> frame_at ex_crop_quiet_env 1 = Some ex_img \<and> 1 < end_frame (e_args ex_crop_quiet_env)
   \<and> run_hand_mocap ex_crop_quiet_env =
       (Some (UnboundLocalError ''body_bbox_list''),
        [(Setup, CreateWindow), (Frame 0, CapRead (Some ex_img)),
         (Frame 0, MakeSubdir ''out/frames/00000.jpg''),
         (Frame 0, Imwrite ''out/frames/00000.jpg'' ex_img), (Frame 0, PrintSeparator),
         (Frame 0, Regress ex_img [[(''right_hand'', [0, 0, 6, 4])]])])"
  by (simp add: ex_crop_env_run ex_crop_quiet_env_run)
     (simp add: ex_crop_env_def ex_crop_quiet_env_def ex_env_def ex_args_def frame_at_def
      source_at_def init_state_def)

text \<open>
  C8, amended.  With \<open>crop_type = hand_crop\<close> and an input that is not a \<open>bbox_dir\<close>,
  nothing assigns \<open>body_bbox_list\<close>: it is unbound in the state every iteration of a run
  starts in.  A run processes at most one frame: when it processes the frame \<open>f\<close> it ends
  with \<open>UnboundLocalError\<close> for \<open>body_bbox_list\<close>, and the separator of that frame is the
  last entry of its trace when \<open>save_bbox_output\<close> is set (the exception is raised by the
  JSON save) and is followed by the regression on the whole-image box alone otherwise (the
  exception is raised by the length assertion); nothing of a later frame and nothing after
  the loop follows.  No run calls \<open>save_info_to_json\<close> or \<open>save_pred_to_pkl\<close>, the two
  calls that take \<open>body_bbox_list\<close>: no list of an earlier frame is ever reused.  In an
  iteration that processes a frame while the name is unbound, the exception is raised
  before any regression when \<open>save_bbox_output\<close> is set, and otherwise the regression on
  the whole-image box is the last call.
\<close>

theorem hand_crop_body_bbox_list_unbound:
  assumes hc: "crop_type (e_args env) = ''hand_crop''" and nb: "input_type env \<noteq> ''bbox_dir''"
  shows "(run_hand_mocap env = (res, tr) \<and> (Frame f, PrintSeparator) \<in> set tr
            \<longrightarrow> res = Some (UnboundLocalError ''body_bbox_list'')
                \<and> (\<exists>pre img. (\<forall>g. (Frame g, PrintSeparator) \<notin> set pre)
                      \<and> tr = pre @ (Frame f, PrintSeparator) #
                          (if save_bbox_output (e_args env) then []
                           else [(Frame f,
                                  Regress img
                                    [[(''right_hand'',
                                       [0, 0, int (img_w img), int (img_h img)])]])])))
         \<and> (loop_body env s = (oc, ev) \<and> PrintSeparator \<in> set ev \<and> body_bbox_list s = None
            \<longrightarrow> oc = Crash (UnboundLocalError ''body_bbox_list'')
                \<and> (if save_bbox_output (e_args env) then calls is_Regress ev = 0
                    else \<exists>img. last ev =
                      Regress img [[(''right_hand'', [0, 0, int (img_w img), int (img_h img)])]]))
         \<and> (iterates env (init_state env) s \<longrightarrow> body_bbox_list s = None)
         \<and> (run_hand_mocap env = (res, tr)
            \<longrightarrow> (\<forall>ph p bb hb. (ph, SaveInfoToJson p bb hb) \<notin> set tr)
                \<and> (\<forall>ph p bb hb po. (ph, SavePredToPkl p bb hb po) \<notin> set tr))"
proof -
  have ub: "body_bbox_list (init_state env) = None"
    by (simp add: init_state_def)
  from run_hand_mocap_hand_crop [OF hc nb, of res tr]
    loop_body_hand_crop_unbound [OF hc nb, of s oc ev]
    iterates_hand_crop_unbound [OF hc nb _ ub, of s]
  show ?thesis
    by blast
qed

theorem hand_crop_body_bbox_list_unbound_witness:
  "crop_type (e_args ex_crop_env) = ''hand_crop'' \<and> input_type ex_crop_env \<noteq> ''bbox_dir''
   \<and> (Frame 0, PrintSeparator) \<in> set (snd (run_hand_mocap ex_crop_env))
   \<and> fst (run_hand_mocap ex_crop_env) = Some (UnboundLocalError ''body_bbox_list'')
   \<and> (\<exists>pre. (\<forall>g. (Frame g, PrintSeparator) \<notin> set pre)
         \<and> snd (run_hand_mocap ex_crop_env) = pre @ [(Frame 0, PrintSeparator)])
   \<and> (\<forall>ph p bb hb. (ph, SaveInfoToJson p bb hb) \<notin> set (snd (run_hand_mocap ex_crop_env)))
   \<and> PrintSeparator \<in> set (snd (loop_body ex_crop_env (init_state ex_crop_env)))
   \<and> body_bbox_list (init_state ex_crop_env) = None
   \<and> fst (loop_body ex_crop_env (init_state ex_crop_env)) =
       Crash (UnboundLocalError ''body_bbox_list'')
   \<and> crop_type (e_args ex_crop_late_env) = ''hand_crop''
   \<and> input_type ex_crop_late_env \<noteq> ''bbox_dir''
   \<and> iterates ex_crop_late_env (init_state ex_crop_late_env)
       ((init_state ex_crop_late_env)\<lparr>cap_pos := 1, video_frame := 1\<rparr>)
   \<and> body_bbox_list ((init_state ex_crop_late_env)\<lparr>cap_pos := 1, video_frame := 1\<rparr>) = None
   \<and> fst (loop_body ex_crop_late_env
            ((init_state ex_crop_late_env)\<lparr>cap_pos := 1, video_frame := 1\<rparr>)) =
       Crash (UnboundLocalError ''body_bbox_list'')
   \<and> \<not> save_bbox_output (e_args ex_crop_quiet_env)
   \<and> (\<exists>img. last (snd (loop_body ex_crop_quiet_env (init_state ex_crop_quiet_env))) =
         Regress img [[(''right_hand'', [0, 0, int (img_w img), int (img_h img)])]])"
proof -
  have qhc: "crop_type (e_args ex_crop_quiet_env) = ''hand_crop''"
    and qnb: "input_type ex_crop_quiet_env \<noteq> ''bbox_dir''"
    and qsv: "\<not> save_bbox_output (e_args ex_crop_quiet_env)"
    by (simp_all add: ex_crop_quiet_env_def ex_env_def ex_args_def)
  have qit: "loop_body ex_crop_quiet_env (init_state ex_crop_quiet_env) =
      (fst (loop_body ex_crop_quiet_env (init_state ex_crop_quiet_env)),
       snd (loop_body ex_crop_quiet_env (init_state ex_crop_quiet_env)))"
    by simp
  have qp: "PrintSeparator
      \<in> set (snd (loop_body ex_crop_quiet_env (init_state ex_crop_quiet_env)))"
    by (simp add: ex_crop_quiet_env_first_iteration)
  have qub: "body_bbox_list (init_state ex_crop_quiet_env) = None"
    by (simp add: init_state_def)
  note q = hand_crop_body_bbox_list_unbound [OF qhc qnb, THEN conjunct2, THEN conjunct1,
      rule_format, OF conjI [OF qit conjI [OF qp qub]], THEN conjunct2]
  from q qsv
  have ql: "\<exists>img. last (snd (loop_body ex_crop_quiet_env (init_state ex_crop_quiet_env))) =
      Regress img [[(''right_hand'', [0, 0, int (img_w img), int (img_h img)])]]"
    by simp
  have hc: "crop_type (e_args ex_crop_env) = ''hand_crop''"
    and nb: "input_type ex_crop_env \<noteq> ''bbox_dir''"
    and sv: "save_bbox_output (e_args ex_crop_env)"
    by (simp_all add: ex_crop_env_def ex_env_def ex_args_def)
  have run: "run_hand_mocap ex_crop_env =
      (fst (run_hand_mocap ex_crop_env), snd (run_hand_mocap ex_crop_env))"
    and it0: "loop_body ex_crop_env (init_state ex_crop_env) =
      (fst (loop_body ex_crop_env (init_state ex_crop_env)),
       snd (loop_body ex_crop_env (init_state ex_crop_env)))"
    by simp_all
  have m: "(Frame 0, PrintSeparator) \<in> set (snd (run_hand_mocap ex_crop_env))"
    by (simp add: ex_crop_env_run)
  have p0: "PrintSeparator \<in> set (snd (loop_body ex_crop_env (init_state ex_crop_env)))"
    by (simp add: ex_crop_env_first_iteration)
  have ub: "body_bbox_list (init_state ex_crop_env) = None"
    by (simp add: init_state_def)
  note a = hand_crop_body_bbox_list_unbound [OF hc nb, THEN conjunct1, rule_format,
      OF conjI [OF run m]]
  from a [THEN conjunct2] sv
  have a2: "\<exists>pre. (\<forall>g. (Frame g, PrintSeparator) \<notin> set pre)
      \<and> snd (run_hand_mocap ex_crop_env) = pre @ [(Frame 0, PrintSeparator)]"
    by auto
  note j = hand_crop_body_bbox_list_unbound [OF hc nb, THEN conjunct2, THEN conjunct2,
      THEN conjunct2, rule_format, OF run, THEN conjunct1]
  note b = hand_crop_body_bbox_list_unbound [OF hc nb, THEN conjunct2, THEN conjunct1,
      rule_format, OF conjI [OF it0 conjI [OF p0 ub]], THEN conjunct1]
  have lhc: "crop_type (e_args ex_crop_late_env) = ''hand_crop''"
    and lnb: "input_type ex_crop_late_env \<noteq> ''bbox_dir''"
    by (simp_all add: ex_crop_late_env_def ex_env_def ex_args_def)
  have li: "iterates ex_crop_late_env (init_state ex_crop_late_env)
      ((init_state ex_crop_late_env)\<lparr>cap_pos := 1, video_frame := 1\<rparr>)"
    by (rule iterates_next [OF ex_crop_late_env_first_iteration iterates_here])
  note lu = hand_crop_body_bbox_list_unbound [OF lhc lnb, THEN conjunct2, THEN conjunct2,
      THEN conjunct1, rule_format, OF li]
  have l2: "loop_body ex_crop_late_env
        ((init_state ex_crop_late_env)\<lparr>cap_pos := 1, video_frame := 1\<rparr>) =
      (fst (loop_body ex_crop_late_env
              ((init_state ex_crop_late_env)\<lparr>cap_pos := 1, video_frame := 1\<rparr>)),
       snd (loop_body ex_crop_late_env
              ((init_state ex_crop_late_env)\<lparr>cap_pos := 1, video_frame := 1\<rparr>)))"
    by simp
  have lp: "PrintSeparator \<in> set (snd (loop_body ex_crop_late_env
      ((init_state ex_crop_late_env)\<lparr>cap_pos := 1, video_frame := 1\<rparr>)))"
    by (subst ex_crop_late_env_second_iteration) simp
  note lc = hand_crop_body_bbox_list_unbound [OF lhc lnb, THEN conjunct2, THEN conjunct1,
      rule_format, OF conjI [OF l2 conjI [OF lp lu]], THEN conjunct1]
  from hc nb m a [THEN conjunct1] a2 j p0 ub b lhc lnb li lu lc qsv ql show ?thesis
    by (intro conjI)
qed

subsection \<open>The frame range\<close>

lemma load_capture_source:
  assumes od: "out_dir (e_args env) = Some od"
    and it: "input_type env = ''video'' \<or> input_type env = ''webcam''"
    and ns: "\<not> skipping env s"
    and ld: "load_capture env s pfx = (r, ev)"
  shows "(source_at env s (cur_frame s) = None \<longrightarrow>
            (\<exists>e. r = LCrash e) \<or> (\<exists>s1 lb. r = LNext s1 None lb))
         \<and> (\<forall>img. source_at env s (cur_frame s) = Some img \<longrightarrow>
              (\<exists>s1. r = LNext s1 (Some img) False
                  \<and> cap_pos s1 = Suc (cap_pos s) \<and> video_frame s1 = video_frame s + 1)
              \<and> CapRead (Some img) \<in> set ev
              \<and> (save_frame (e_args env) \<longrightarrow>
                    Imwrite (frame_path od pfx (cur_frame s)) img \<in> set ev))"
  using assms
  by (auto simp: load_capture_def source_at_def skipping_def Let_def
      split: input_data.splits option.splits if_splits)

lemma load_data_source:
  assumes od: "out_dir (e_args env) = Some od"
    and ns: "\<not> skipping env s"
    and ld: "load_data env s = (r, ev)"
  shows "(source_at env s (cur_frame s) = None \<longrightarrow>
            (\<exists>e. r = LCrash e) \<or> (\<exists>s1 lb. r = LNext s1 None lb))
         \<and> (\<forall>img. source_at env s (cur_frame s) = Some img \<longrightarrow>
              (\<exists>s1 lb. r = LNext s1 (Some img) lb
                  \<and> (lb \<longleftrightarrow> input_type env = ''bbox_dir'')
                  \<and> (input_type env = ''video'' \<or> input_type env = ''webcam'' \<longrightarrow>
                        cap_pos s1 = Suc (cap_pos s) \<and> video_frame s1 = video_frame s + 1))
              \<and> calls is_read ev = 1
              \<and> (save_frame (e_args env) \<longrightarrow>
                   (input_type env = ''video'' \<longrightarrow>
                      Imwrite (frame_path od [] (cur_frame s)) img \<in> set ev)
                   \<and> (input_type env = ''webcam'' \<longrightarrow>
                      Imwrite (frame_path od ''scene_'' (cur_frame s)) img \<in> set ev)))"
proof (cases "input_type env = ''video'' \<or> input_type env = ''webcam''")
  case True
  then obtain pfx where pf: "load_data env s = load_capture env s pfx"
    "input_type env = ''video'' \<longrightarrow> pfx = []"
    "input_type env = ''webcam'' \<longrightarrow> pfx = ''scene_''"
    by (auto simp: load_data_def)
  with ld have lc: "load_capture env s pfx = (r, ev)" by simp
  from load_capture_source [OF od True ns lc] load_data_events [OF ld] pf(2,3) True
  show ?thesis
    by auto
next
  case False
  with ld load_data_events [OF ld] show ?thesis
    by (auto simp: load_data_def source_at_def
        split: input_data.splits option.splits if_splits)
qed

lemma regress_frame_keeps:
  assumes "regress_frame env s img hb = (Continue s', ev)"
  shows "s' = s\<lparr>vis_initialized := True\<rparr>"
  using assms
  by (auto simp: regress_frame_def Let_def update_renderer_def
      split: option.splits if_splits sum.splits prod.splits
      dest!: render_and_save_Continue)

lemma process_frame_keeps:
  assumes "process_frame env s img lb = (Continue s', ev)"
  shows "cur_frame s' = cur_frame s \<and> video_frame s' = video_frame s \<and> cap_pos s' = cap_pos s"
proof -
  obtain r1 ev1 where b: "bbox_detection env s img lb = (r1, ev1)"
    by (cases "bbox_detection env s img lb")
  show ?thesis
  proof (cases r1)
    case (Inl e)
    with assms b show ?thesis by (simp add: process_frame_def)
  next
    case (Inr s1)
    with b have k: "cur_frame s1 = cur_frame s \<and> video_frame s1 = video_frame s
        \<and> cap_pos s1 = cap_pos s"
      using bbox_detection_keeps by blast
    from assms b Inr have "s' = s1 \<or> (\<exists>hb ev3. regress_frame env s1 img hb = (Continue s', ev3))"
      by (auto simp: process_frame_def split: prod.splits sum.splits option.splits if_splits)
    with k regress_frame_keeps show ?thesis
      by fastforce
  qed
qed

lemma skipping_load:
  assumes "skipping env s"
  shows "\<exists>s1 img. load_data env s = (LSkip s1, [CapRead img])"
  using assms
  by (auto simp: skipping_def load_data_def load_capture_def Let_def split: input_data.splits)

lemma loop_body_separator_iff:
  assumes od: "out_dir (e_args env) = Some od" and lb: "loop_body env s = (oc, ev)"
  shows "PrintSeparator \<in> set ev \<longleftrightarrow>
           \<not> skipping env s \<and> source_at env s (cur_frame s) \<noteq> None
           \<and> cur_frame s + 1 \<le> end_frame (e_args env)"
proof (cases "skipping env s")
  case True
  from skipping_load [OF this] lb have "\<exists>img. ev = [CapRead img]"
    by (auto simp: loop_body_def)
  with True show ?thesis by auto
next
  case False
  obtain r ev1 where ld: "load_data env s = (r, ev1)"
    by (cases "load_data env s")
  note src = load_data_source [OF od False ld]
  from load_data_events [OF ld] have n: "PrintSeparator \<notin> set ev1"
    by auto
  show ?thesis
  proof (cases "source_at env s (cur_frame s)")
    case None
    with src lb ld have "ev = ev1"
      by (auto simp: loop_body_def Let_def)
    with n None show ?thesis by simp
  next
    case (Some img)
    with src obtain s1 lb' where r: "r = LNext s1 (Some img) lb'"
      by blast
    from load_data_LNext ld r have cf: "cur_frame s1 = cur_frame s"
      by blast
    show ?thesis
    proof (cases "cur_frame s + 1 \<le> end_frame (e_args env)")
      case True
      obtain oc2 ev2 where
        "process_frame env (s1\<lparr>cur_frame := cur_frame s + 1\<rparr>) img lb' = (oc2, ev2)"
        by (cases "process_frame env (s1\<lparr>cur_frame := cur_frame s + 1\<rparr>) img lb'")
      with lb ld r cf True have "ev = ev1 @ PrintSeparator # ev2"
        by (simp add: loop_body_def Let_def)
      with False Some True show ?thesis by simp
    next
      case f: False
      with lb ld r cf have "ev = ev1"
        by (simp add: loop_body_def Let_def)
      with n f show ?thesis by simp
    qed
  qed
qed

lemma loop_body_Break_source:
  assumes od: "out_dir (e_args env) = Some od" and lb: "loop_body env s = (Break s', ev)"
  shows "\<not> skipping env s
         \<and> (source_at env s (cur_frame s) = None \<or> end_frame (e_args env) < cur_frame s + 1)
         \<and> (\<forall>img. source_at env s (cur_frame s) = Some img \<longrightarrow>
               calls is_read ev = 1
               \<and> (save_frame (e_args env) \<longrightarrow>
                    (input_type env = ''video'' \<longrightarrow>
                       Imwrite (frame_path od [] (cur_frame s)) img \<in> set ev)
                    \<and> (input_type env = ''webcam'' \<longrightarrow>
                       Imwrite (frame_path od ''scene_'' (cur_frame s)) img \<in> set ev)))"
proof -
  have ns: "\<not> skipping env s"
  proof
    assume "skipping env s"
    from skipping_load [OF this] lb show False
      by (auto simp: loop_body_def)
  qed
  obtain r ev1 where ld: "load_data env s = (r, ev1)"
    by (cases "load_data env s")
  note src = load_data_source [OF od ns ld]
  have sep: "PrintSeparator \<notin> set ev"
  proof
    assume "PrintSeparator \<in> set ev"
    from loop_body_processed [OF lb this] obtain s1 img lb' ev2 where
      "process_frame env (s1\<lparr>cur_frame := cur_frame s + 1\<rparr>) img lb' = (Break s', ev2)"
      by blast
    then show False
      by (auto simp: process_frame_def regress_frame_def render_and_save_def Let_def
          update_renderer_def split: prod.splits sum.splits option.splits if_splits)
  qed
  from sep loop_body_separator_iff [OF od lb] ns
  have c: "source_at env s (cur_frame s) = None \<or> end_frame (e_args env) < cur_frame s + 1"
    by auto
  have "ev = ev1"
  proof (cases r)
    case (LCrash e)
    with lb ld show ?thesis by (simp add: loop_body_def)
  next
    case (LSkip s1)
    with lb ld show ?thesis by (simp add: loop_body_def)
  next
    case (LNext s1 io lb')
    with lb ld sep show ?thesis
      by (auto simp: loop_body_def Let_def split: option.splits if_splits prod.splits)
  qed
  with src ns c show ?thesis
    by auto
qed

lemma loop_body_Continue_source:
  assumes od: "out_dir (e_args env) = Some od" and lb: "loop_body env s = (Continue s', ev)"
    and g: "cur_frame s' \<le> g"
  shows "source_at env s' g = source_at env s g"
proof (cases "PrintSeparator \<in> set ev")
  case False
  from loop_body_skip [OF lb False] obtain c where
    s': "s' = s\<lparr>cap_pos := Suc (cap_pos s), video_frame := video_frame s + 1\<rparr>"
    and lt: "video_frame s < cur_frame s" and d: "e_input_data env = Capture c"
    by blast
  from lt have "nat (cur_frame s - video_frame s) = Suc (nat (cur_frame s - (video_frame s + 1)))"
    by simp
  then show ?thesis
    by (simp add: source_at_def s' d)
next
  case True
  from loop_body_processed [OF lb True] obtain s1 img lb' ev1 ev2 where
    ld: "load_data env s = (LNext s1 (Some img) lb', ev1)"
    and p: "process_frame env (s1\<lparr>cur_frame := cur_frame s + 1\<rparr>) img lb' = (Continue s', ev2)"
    by blast
  from loop_body_separator_iff [OF od lb] True have ns: "\<not> skipping env s"
    and sm: "source_at env s (cur_frame s) \<noteq> None"
    by simp_all
  from process_frame_keeps [OF p] have k: "cur_frame s' = cur_frame s + 1"
    "video_frame s' = video_frame s1" "cap_pos s' = cap_pos s1"
    by simp_all
  show ?thesis
  proof (cases "input_type env = ''video'' \<or> input_type env = ''webcam''")
    case False
    then show ?thesis by (simp add: source_at_def)
  next
    case cap: True
    from sm obtain im where "source_at env s (cur_frame s) = Some im" by auto
    with load_data_source [OF od ns ld] cap have
      c: "cap_pos s1 = Suc (cap_pos s)" "video_frame s1 = video_frame s + 1"
      by auto
    from sm cap obtain c' where d: "e_input_data env = Capture c'"
      by (auto simp: source_at_def split: input_data.splits if_splits)
    with ns cap have v: "\<not> video_frame s < cur_frame s"
      by (simp add: skipping_def)
    from g k have "nat (g - cur_frame s) = Suc (nat (g - (cur_frame s + 1)))"
      by simp
    with cap d k c v show ?thesis
      by (simp add: source_at_def)
  qed
qed

lemma loop_body_advance:
  assumes "loop_body env s = (Continue s', ev)"
  shows "if PrintSeparator \<in> set ev then cur_frame s' = cur_frame s + 1
         else cur_frame s' = cur_frame s"
proof (cases "PrintSeparator \<in> set ev")
  case True
  from loop_body_processed [OF assms True] process_frame_keeps True show ?thesis
    by fastforce
next
  case False
  with loop_body_skip [OF assms False] show ?thesis by auto
qed

lemma run_loop_processed_only_if:
  assumes od: "out_dir (e_args env) = Some od"
  shows "\<forall>f. (Frame f, PrintSeparator) \<in> set (snd (run_loop env s)) \<longrightarrow>
           cur_frame s \<le> f \<and> f + 1 \<le> end_frame (e_args env)
           \<and> (\<forall>g. cur_frame s \<le> g \<and> g \<le> f \<longrightarrow> source_at env s g \<noteq> None)"
proof (induction s rule: run_loop_induct [where env = env])
  case (Continue s s' ev)
  note sep = loop_body_separator_iff [OF od Continue(1)]
  note adv = loop_body_advance [OF Continue(1)]
  note src = loop_body_Continue_source [OF od Continue(1)]
  show ?case
  proof (intro allI impI)
    fix f
    assume "(Frame f, PrintSeparator) \<in> set (snd (run_loop env s))"
    then consider (here) "f = cur_frame s" "PrintSeparator \<in> set ev"
      | (later) "(Frame f, PrintSeparator) \<in> set (snd (run_loop env s'))"
      unfolding run_loop_Continue [OF Continue(1)] by auto
    then show "cur_frame s \<le> f \<and> f + 1 \<le> end_frame (e_args env)
        \<and> (\<forall>g. cur_frame s \<le> g \<and> g \<le> f \<longrightarrow> source_at env s g \<noteq> None)"
    proof cases
      case here
      with sep show ?thesis by auto
    next
      case later
      with Continue(2) have ih: "cur_frame s' \<le> f" "f + 1 \<le> end_frame (e_args env)"
        "\<forall>g. cur_frame s' \<le> g \<and> g \<le> f \<longrightarrow> source_at env s' g \<noteq> None"
        by blast+
      show ?thesis
      proof (cases "PrintSeparator \<in> set ev")
        case True
        with adv have c: "cur_frame s' = cur_frame s + 1" by simp
        from True sep have "source_at env s (cur_frame s) \<noteq> None" by simp
        moreover have "\<forall>g. cur_frame s + 1 \<le> g \<and> g \<le> f \<longrightarrow> source_at env s g \<noteq> None"
          using ih(3) src c by auto
        ultimately have "\<forall>g. cur_frame s \<le> g \<and> g \<le> f \<longrightarrow> source_at env s g \<noteq> None"
          by (metis add.commute less_le zless_imp_add1_zle)
        with ih c show ?thesis by auto
      next
        case False
        with adv have c: "cur_frame s' = cur_frame s" by simp
        with ih src show ?thesis by auto
      qed
    qed
  qed
next
  case (Break s s' ev)
  from loop_body_separator_iff [OF od Break(1)] show ?case
    unfolding run_loop_Break [OF Break(1)] by auto
next
  case (Crash s e ev)
  from loop_body_separator_iff [OF od Crash(1)] show ?case
    unfolding run_loop_Crash [OF Crash(1)] by auto
qed

lemma run_loop_processed_if:
  assumes od: "out_dir (e_args env) = Some od"
  shows "\<forall>f. fst (run_loop env s) = None
           \<and> cur_frame s \<le> f \<and> f + 1 \<le> end_frame (e_args env)
           \<and> (\<forall>g. cur_frame s \<le> g \<and> g \<le> f \<longrightarrow> source_at env s g \<noteq> None)
           \<longrightarrow> (Frame f, PrintSeparator) \<in> set (snd (run_loop env s))"
proof (induction s rule: run_loop_induct [where env = env])
  case (Continue s s' ev)
  note sep = loop_body_separator_iff [OF od Continue(1)]
  note adv = loop_body_advance [OF Continue(1)]
  note src = loop_body_Continue_source [OF od Continue(1)]
  show ?case
  proof (intro allI impI, elim conjE)
    fix f
    assume r: "fst (run_loop env s) = None" and lo: "cur_frame s \<le> f"
      and hi: "f + 1 \<le> end_frame (e_args env)"
      and sr: "\<forall>g. cur_frame s \<le> g \<and> g \<le> f \<longrightarrow> source_at env s g \<noteq> None"
    from r have r': "fst (run_loop env s') = None"
      unfolding run_loop_Continue [OF Continue(1)] by simp
    show "(Frame f, PrintSeparator) \<in> set (snd (run_loop env s))"
    proof (cases "PrintSeparator \<in> set ev \<and> f = cur_frame s")
      case True
      then show ?thesis
        unfolding run_loop_Continue [OF Continue(1)] by force
    next
      case False
      have c: "cur_frame s' \<le> f"
      proof (cases "PrintSeparator \<in> set ev")
        case True
        with adv False lo show ?thesis by auto
      next
        case n: False
        with adv lo show ?thesis by auto
      qed
      have "cur_frame s \<le> cur_frame s'"
        using adv by (auto split: if_splits)
      with sr src have "\<forall>g. cur_frame s' \<le> g \<and> g \<le> f \<longrightarrow> source_at env s' g \<noteq> None"
        by auto
      with Continue(2) r' c hi have "(Frame f, PrintSeparator) \<in> set (snd (run_loop env s'))"
        by blast
      then show ?thesis
        unfolding run_loop_Continue [OF Continue(1)] by simp
    qed
  qed
next
  case (Break s s' ev)
  from loop_body_Break_source [OF od Break(1)] show ?case
    by auto
next
  case (Crash s e ev)
  show ?case
    unfolding run_loop_Crash [OF Crash(1)] by simp
qed

lemma calls_one_member:
  assumes "calls P ev = 1"
  shows "\<exists>e \<in> set ev. P e"
proof -
  from assms have "filter P ev \<noteq> []"
    by (auto simp: calls_def)
  then obtain e where "e \<in> set (filter P ev)"
    by (cases "filter P ev") auto
  then show ?thesis by auto
qed

lemma run_loop_end_frame_loaded:
  assumes od: "out_dir (e_args env) = Some od"
  shows "fst (run_loop env s) = None \<and> cur_frame s \<le> end_frame (e_args env)
           \<and> (\<forall>g. cur_frame s \<le> g \<and> g \<le> end_frame (e_args env)
                 \<longrightarrow> source_at env s g \<noteq> None)
         \<longrightarrow> (\<exists>e. is_read e \<and> (Frame (end_frame (e_args env)), e) \<in> set (snd (run_loop env s)))
             \<and> (\<forall>img. source_at env s (end_frame (e_args env)) = Some img
                   \<and> save_frame (e_args env) \<longrightarrow>
                   (input_type env = ''video'' \<longrightarrow>
                      (Frame (end_frame (e_args env)),
                       Imwrite (frame_path od [] (end_frame (e_args env))) img)
                        \<in> set (snd (run_loop env s)))
                   \<and> (input_type env = ''webcam'' \<longrightarrow>
                      (Frame (end_frame (e_args env)),
                       Imwrite (frame_path od ''scene_'' (end_frame (e_args env))) img)
                        \<in> set (snd (run_loop env s))))"
  (is "?pre s \<longrightarrow> ?post s")
proof (induction s rule: run_loop_induct [where env = env])
  case (Continue s s' ev)
  note sep = loop_body_separator_iff [OF od Continue(1)]
  note adv = loop_body_advance [OF Continue(1)]
  note src = loop_body_Continue_source [OF od Continue(1)]
  show ?case
  proof
    assume pre: "?pre s"
    then have r': "fst (run_loop env s') = None"
      unfolding run_loop_Continue [OF Continue(1)] by simp
    have c: "cur_frame s \<le> cur_frame s'" "cur_frame s' \<le> end_frame (e_args env)"
      using adv sep pre by (auto split: if_splits)
    with pre src have "\<forall>g. cur_frame s' \<le> g \<and> g \<le> end_frame (e_args env)
        \<longrightarrow> source_at env s' g \<noteq> None"
      by auto
    with r' c Continue(2) have post: "?post s'"
      by blast
    from src c have e: "source_at env s' (end_frame (e_args env))
        = source_at env s (end_frame (e_args env))"
      by simp
    have sub: "set (snd (run_loop env s')) \<subseteq> set (snd (run_loop env s))"
      unfolding run_loop_Continue [OF Continue(1)] by auto
    from post sub show "?post s"
      unfolding e by blast
  qed
next
  case (Break s s' ev)
  note b = loop_body_Break_source [OF od Break(1)]
  show ?case
  proof
    assume pre: "?pre s"
    with b have eq: "cur_frame s = end_frame (e_args env)"
      by auto
    from pre obtain im where im: "source_at env s (cur_frame s) = Some im"
      by auto
    with b have rd: "calls is_read ev = 1" by blast
    from calls_one_member [OF rd] obtain e where "e \<in> set ev" "is_read e"
      by blast
    then have "\<exists>e. is_read e \<and> (Frame (cur_frame s), e) \<in> set (snd (run_loop env s))"
      unfolding run_loop_Break [OF Break(1)] by auto
    moreover from b have "\<forall>img. source_at env s (cur_frame s) = Some img
        \<and> save_frame (e_args env) \<longrightarrow>
          (input_type env = ''video'' \<longrightarrow>
             (Frame (cur_frame s), Imwrite (frame_path od [] (cur_frame s)) img)
               \<in> set (snd (run_loop env s)))
          \<and> (input_type env = ''webcam'' \<longrightarrow>
             (Frame (cur_frame s), Imwrite (frame_path od ''scene_'' (cur_frame s)) img)
               \<in> set (snd (run_loop env s)))"
      unfolding run_loop_Break [OF Break(1)] by auto
    ultimately show "?post s"
      unfolding eq by blast
  qed
next
  case (Crash s e ev)
  show ?case
    unfolding run_loop_Crash [OF Crash(1)] by simp
qed

lemma run_hand_mocap_frame_calls:
  assumes "run_hand_mocap env = (res, tr)"
  shows "out_dir (e_args env) = None \<and> res \<noteq> None \<and> (\<forall>f e. (Frame f, e) \<notin> set tr)
       \<or> (\<exists>od. out_dir (e_args env) = Some od
             \<and> res = fst (run_loop env (init_state env))
             \<and> (\<forall>f e. (Frame f, e) \<in> set tr
                   \<longleftrightarrow> (Frame f, e) \<in> set (snd (run_loop env (init_state env)))))"
  using assms
proof (cases rule: run_hand_mocap_trace)
  case no_out_dir
  then show ?thesis by simp
next
  case (aborted od e ltr)
  then show ?thesis by auto
next
  case (finished od ltr)
  then show ?thesis by auto
qed

subsection \<open>The frame range, stated\<close>

lemma ex_gap_env_run:
  "run_hand_mocap ex_gap_env = (None, [(Setup, CreateWindow), (Frame 0, Imread ''bad.jpg''),
     (Teardown, DestroyAllWindows)])"
  by (simp add: run_hand_mocap_def run_loop.simps ex_gap_env_def ex_env_def ex_args_def
      iteration_defs py_index_def after_loop_def)

lemma ex_short_env_run: "fst (run_hand_mocap ex_short_env) = None"
  by (simp add: run_hand_mocap_def run_loop.simps ex_short_env_def ex_env_def ex_args_def
      ex_pred_def ex_img_def iteration_defs frame_path_out_0 frame_path_out_1 after_loop_def)

lemma ex_short_env_frames:
  "\<forall>g. 0 \<le> g \<and> g \<le> 1 \<longrightarrow> frame_at ex_short_env g = Some ex_img"
  by (auto simp: frame_at_def source_at_def init_state_def ex_short_env_def ex_env_def
      ex_args_def)

text \<open>
  C9, as the claim states it: a frame is processed if and only if its index lies in
  \<open>start_frame .. end_frame - 1\<close> and the source yields an image at that index.  In a
  directory whose first image cannot be read, the loop breaks at frame 0: frame 1 is in
  the range, the source yields an image for it, and it is not processed.
\<close>

theorem later_frame_not_processed:
  "start_frame (e_args ex_gap_env) \<le> 1 \<and> 1 \<le> end_frame (e_args ex_gap_env) - 1
   \<and> frame_at ex_gap_env 1 = Some ex_img
   \<and> (Frame 1, PrintSeparator) \<notin> set (snd (run_hand_mocap ex_gap_env))"
  by (simp add: ex_gap_env_run)
     (simp add: ex_gap_env_def ex_env_def ex_args_def frame_at_def source_at_def py_index_def)

text \<open>
  C9, amended.  The frame range is exclusive at the top.  In every run, a frame that is
  processed has its index in \<open>start_frame .. end_frame - 1\<close> and the source yields an
  image at every index from \<open>start_frame\<close> up to it; in a run that ends without an
  exception, every such frame is processed.  The frame at index \<open>end_frame\<close> is never
  processed.  When the run ends without an exception, \<open>start_frame \<le> end_frame\<close> and
  the source yields an image at every index up to \<open>end_frame\<close>, that frame is read
  from the source and, for a video or webcam with \<open>save_frame\<close>, written as a JPEG,
  before the loop breaks.
\<close>

theorem frame_range_exclusive_at_top:
  assumes run: "run_hand_mocap env = (res, tr)"
  shows "((Frame f, PrintSeparator) \<in> set tr \<longrightarrow>
            start_frame (e_args env) \<le> f \<and> f \<le> end_frame (e_args env) - 1
            \<and> (\<forall>g. start_frame (e_args env) \<le> g \<and> g \<le> f \<longrightarrow> frame_at env g \<noteq> None))
         \<and> (res = None \<and> start_frame (e_args env) \<le> f \<and> f \<le> end_frame (e_args env) - 1
              \<and> (\<forall>g. start_frame (e_args env) \<le> g \<and> g \<le> f \<longrightarrow> frame_at env g \<noteq> None)
            \<longrightarrow> (Frame f, PrintSeparator) \<in> set tr)
         \<and> (Frame (end_frame (e_args env)), PrintSeparator) \<notin> set tr
         \<and> (res = None \<and> start_frame (e_args env) \<le> end_frame (e_args env)
              \<and> (\<forall>g. start_frame (e_args env) \<le> g \<and> g \<le> end_frame (e_args env)
                    \<longrightarrow> frame_at env g \<noteq> None)
            \<longrightarrow> (\<exists>e. is_read e \<and> (Frame (end_frame (e_args env)), e) \<in> set tr)
                \<and> (\<forall>img od. frame_at env (end_frame (e_args env)) = Some img
                      \<and> save_frame (e_args env) \<and> out_dir (e_args env) = Some od \<longrightarrow>
                      (input_type env = ''video'' \<longrightarrow>
                         (Frame (end_frame (e_args env)),
                          Imwrite (frame_path od [] (end_frame (e_args env))) img) \<in> set tr)
                      \<and> (input_type env = ''webcam'' \<longrightarrow>
                         (Frame (end_frame (e_args env)),
                          Imwrite (frame_path od ''scene_'' (end_frame (e_args env))) img)
                           \<in> set tr)))"
proof -
  from run_hand_mocap_frame_calls [OF run] show ?thesis
  proof (elim disjE exE conjE)
    assume "out_dir (e_args env) = None" "res \<noteq> None" "\<forall>f e. (Frame f, e) \<notin> set tr"
    then show ?thesis by simp
  next
    fix od
    assume od: "out_dir (e_args env) = Some od"
      and res: "res = fst (run_loop env (init_state env))"
      and tr: "\<forall>f e. (Frame f, e) \<in> set tr
                   \<longleftrightarrow> (Frame f, e) \<in> set (snd (run_loop env (init_state env)))"
    have cf: "cur_frame (init_state env) = start_frame (e_args env)"
      by (simp add: init_state_def)
    note a = run_loop_processed_only_if [OF od, of "init_state env", unfolded cf,
        folded frame_at_def]
    note b = run_loop_processed_if [OF od, of "init_state env", unfolded cf,
        folded frame_at_def]
    note c = run_loop_end_frame_loaded [OF od, of "init_state env", unfolded cf,
        folded frame_at_def]
    have 1: "(Frame f, PrintSeparator) \<in> set tr \<longrightarrow>
            start_frame (e_args env) \<le> f \<and> f \<le> end_frame (e_args env) - 1
            \<and> (\<forall>g. start_frame (e_args env) \<le> g \<and> g \<le> f \<longrightarrow> frame_at env g \<noteq> None)"
      using a tr by auto
    have 2: "res = None \<and> start_frame (e_args env) \<le> f \<and> f \<le> end_frame (e_args env) - 1
              \<and> (\<forall>g. start_frame (e_args env) \<le> g \<and> g \<le> f \<longrightarrow> frame_at env g \<noteq> None)
            \<longrightarrow> (Frame f, PrintSeparator) \<in> set tr"
      using b [rule_format, of f] tr res by auto
    have 3: "(Frame (end_frame (e_args env)), PrintSeparator) \<notin> set tr"
      using a tr by auto
    have 4: "res = None \<and> start_frame (e_args env) \<le> end_frame (e_args env)
              \<and> (\<forall>g. start_frame (e_args env) \<le> g \<and> g \<le> end_frame (e_args env)
                    \<longrightarrow> frame_at env g \<noteq> None)
            \<longrightarrow> (\<exists>e. is_read e \<and> (Frame (end_frame (e_args env)), e) \<in> set tr)
                \<and> (\<forall>img od. frame_at env (end_frame (e_args env)) = Some img
                      \<and> save_frame (e_args env) \<and> out_dir (e_args env) = Some od \<longrightarrow>
                      (input_type env = ''video'' \<longrightarrow>
                         (Frame (end_frame (e_args env)),
                          Imwrite (frame_path od [] (end_frame (e_args env))) img) \<in> set tr)
                      \<and> (input_type env = ''webcam'' \<longrightarrow>
                         (Frame (end_frame (e_args env)),
                          Imwrite (frame_path od ''scene_'' (end_frame (e_args env))) img)
                           \<in> set tr))"
      using c tr res od by auto
    from 1 2 3 4 show ?thesis by blast
  qed
qed

theorem frame_range_exclusive_at_top_witness:
  "fst (run_hand_mocap ex_short_env) = None
   \<and> start_frame (e_args ex_short_env) = 0 \<and> end_frame (e_args ex_short_env) = 1
   \<and> frame_at ex_short_env 0 = Some ex_img \<and> frame_at ex_short_env 1 = Some ex_img
   \<and> (Frame 0, PrintSeparator) \<in> set (snd (run_hand_mocap ex_short_env))
   \<and> (Frame 1, PrintSeparator) \<notin> set (snd (run_hand_mocap ex_short_env))
   \<and> (\<exists>e. is_read e \<and> (Frame 1, e) \<in> set (snd (run_hand_mocap ex_short_env)))
   \<and> (Frame 1, Imwrite ''out/frames/00001.jpg'' ex_img)
       \<in> set (snd (run_hand_mocap ex_short_env))"
proof -
  have h: "run_hand_mocap ex_short_env =
      (fst (run_hand_mocap ex_short_env), snd (run_hand_mocap ex_short_env))"
    by simp
  have a: "start_frame (e_args ex_short_env) = 0" "end_frame (e_args ex_short_env) = 1"
    "save_frame (e_args ex_short_env)" "out_dir (e_args ex_short_env) = Some ''out''"
    "input_type ex_short_env = ''video''"
    by (simp_all add: ex_short_env_def ex_env_def ex_args_def)
  have f0: "\<forall>g. 0 \<le> g \<and> g \<le> 0 \<longrightarrow> frame_at ex_short_env g \<noteq> None"
    and f1: "\<forall>g. 0 \<le> g \<and> g \<le> 1 \<longrightarrow> frame_at ex_short_env g \<noteq> None"
    and fs: "frame_at ex_short_env 0 = Some ex_img" "frame_at ex_short_env 1 = Some ex_img"
    using ex_short_env_frames by simp_all
  note t = frame_range_exclusive_at_top [OF h, unfolded a]
  have p0: "(Frame 0, PrintSeparator) \<in> set (snd (run_hand_mocap ex_short_env))"
    using t [of 0, THEN conjunct2, THEN conjunct1] ex_short_env_run f0 by simp
  have n1: "(Frame 1, PrintSeparator) \<notin> set (snd (run_hand_mocap ex_short_env))"
    using t [of 0, THEN conjunct2, THEN conjunct2, THEN conjunct1] .
  note l = t [of 0, THEN conjunct2, THEN conjunct2, THEN conjunct2, rule_format,
      OF conjI [OF ex_short_env_run conjI [OF _ f1]]]
  have r1: "\<exists>e. is_read e \<and> (Frame 1, e) \<in> set (snd (run_hand_mocap ex_short_env))"
    using l by simp
  have w1: "(Frame 1, Imwrite ''out/frames/00001.jpg'' ex_img)
      \<in> set (snd (run_hand_mocap ex_short_env))"
    using l fs a by (simp add: frame_path_out_1)
  from ex_short_env_run a(1,2) fs p0 n1 r1 w1 show ?thesis
    by (intro conjI)
qed

subsection \<open>Assertions and exceptions\<close>






subsection \<open>The point cloud\<close>


lemma point_cloud_left_hand:
  assumes "map_of p ''left_hand'' = Some (Some h)"
    and "map_of h ''pred_joints_smpl'' = Some joints"
  shows "point_cloud (p # ps) = Inr (map (\<lambda>(x, y, z). (x, - y, z)) joints)"
proof -
  have "map (transform_point flip_y) joints = map (\<lambda>(x, y, z). (x, - y, z)) joints"
    by (rule map_cong) (auto simp: transform_point_flip_y)
  with assms show ?thesis
    by (simp add: point_cloud_def first_left_joints_def)
qed

lemma point_cloud_only_first_left:
  assumes "map_of p ''left_hand'' = map_of p' ''left_hand''"
  shows "point_cloud (p # ps) = point_cloud (p' # ps')"
  using assms by (simp add: point_cloud_def first_left_joints_def)

lemma point_cloud_no_left_hand:
  assumes "map_of p ''left_hand'' = None \<or> map_of p ''left_hand'' = Some None"
  shows "\<exists>e. point_cloud (p # ps) = Inl e"
  using assms by (auto simp: point_cloud_def first_left_joints_def)

lemma regress_frame_point_cloud:
  assumes "body_bbox_list s = Some bb" and "length hb = length bb"
    and "length bb = length (regress env img hb)"
  shows "case point_cloud (regress env img hb) of
           Inl e \<Rightarrow> regress_frame env s img hb = (Crash e, [Regress img hb])
         | Inr pts \<Rightarrow>
             \<exists>oc ev. regress_frame env s img hb =
               (oc, Regress img hb
                    # (if vis_initialized s then UpdateGeometry pts colors
                       else AddGeometry pts colors)
                    # PollEvents # UpdateRenderer # ev)"
  using assms
  by (auto simp: regress_frame_def Let_def update_renderer_def split: sum.splits prod.splits)

text \<open>
  C10.  The points shown in the point-cloud window are the joints
  \<open>pred_joints_smpl\<close> of the left hand of the first prediction, each with its Y
  coordinate negated.  Two prediction lists whose first entries agree on \<open>left_hand\<close>
  give the same points, whatever the later predictions and the right hand are.  When
  the first prediction has no \<open>left_hand\<close> key, or has \<open>None\<close> there, the step
  fails.  In the loop body, once the two length assertions have passed, a failure of
  the step ends the iteration with that exception right after the regression, and
  otherwise the transformed points are what the window receives.
\<close>

theorem point_cloud_first_left_hand:
  "(map_of p ''left_hand'' = Some (Some h) \<and> map_of h ''pred_joints_smpl'' = Some joints
      \<longrightarrow> point_cloud (p # ps) = Inr (map (\<lambda>(x, y, z). (x, - y, z)) joints))
   \<and> (map_of p ''left_hand'' = map_of p' ''left_hand''
      \<longrightarrow> point_cloud (p # ps) = point_cloud (p' # ps'))
   \<and> (map_of p ''left_hand'' = None \<or> map_of p ''left_hand'' = Some None
      \<longrightarrow> (\<exists>e. point_cloud (p # ps) = Inl e))
   \<and> (body_bbox_list s = Some bb \<and> length hb = length bb
        \<and> length bb = length (regress env img hb)
      \<longrightarrow> (case point_cloud (regress env img hb) of
             Inl e \<Rightarrow> regress_frame env s img hb = (Crash e, [Regress img hb])
           | Inr pts \<Rightarrow>
               \<exists>oc ev. regress_frame env s img hb =
                 (oc, Regress img hb
                      # (if vis_initialized s then UpdateGeometry pts colors
                         else AddGeometry pts colors)
                      # PollEvents # UpdateRenderer # ev)))"
  using point_cloud_left_hand [of p h joints ps]
    point_cloud_only_first_left [of p p' ps ps']
    point_cloud_no_left_hand [of p ps]
    regress_frame_point_cloud [of s bb hb env img]
  by blast

theorem point_cloud_first_left_hand_witness:
  "point_cloud [ex_pred, ex_pred_right] = Inr [(1, - 2, 3)]
   \<and> point_cloud [ex_pred, ex_pred_right] = point_cloud [[(''left_hand'', Some [(''pred_joints_smpl'', [(1, 2, 3)])])]]
   \<and> (\<exists>e. point_cloud [ex_pred_right, ex_pred] = Inl e)
   \<and> (\<exists>oc ev. regress_frame ex_env ex_state ex_img [[(''left_hand'', [0, 0, 1, 1])]] =
         (oc, Regress ex_img [[(''left_hand'', [0, 0, 1, 1])]]
              # AddGeometry [(1, - 2, 3)] colors # PollEvents # UpdateRenderer # ev))"
  using point_cloud_first_left_hand
    [of ex_pred "[(''pred_joints_smpl'', [(1, 2, 3)])]" "[(1, 2, 3)]" "[ex_pred_right]"
        "[(''left_hand'', Some [(''pred_joints_smpl'', [(1, 2, 3)])])]" "[]"
        ex_state "[[0, 0, 1, 1]]" "[[(''left_hand'', [0, 0, 1, 1])]]" ex_env ex_img]
  by (simp add: ex_pred_def ex_pred_right_def ex_state_def ex_env_def point_cloud_def
      first_left_joints_def transform_point_flip_y regress_frame_def update_renderer_def
      render_and_save_def Let_def)

end
